theory Spec2Isabelle
  imports Main
begin

section \<open>Token lifecycle and authenticated requests of microsoft-todo-mcp-server\<close>

text \<open>
  A shallow embedding of \<^verbatim>\<open>TokenManager\<close> (src/token-manager.ts) and of
  \<^verbatim>\<open>makeGraphRequest\<close> / \<^verbatim>\<open>getAccessToken\<close> (src/todo-index.ts).
  Every method becomes a function from the state of the process and its surroundings
  (the \<open>world\<close>) to its return value and the new world. What a method can observe
  from outside (environment variables, the files, the clock, the two HTTP services) is
  a field of the world; what it does to the outside (file accesses, HTTP calls, console
  output) is appended to a log in the world.

  Conventions.
  \<^item> A TypeScript value of type \<^verbatim>\<open>string | undefined\<close> or \<^verbatim>\<open>string | null\<close> is a
    \<open>string option\<close>; JavaScript truthiness of such a value is \<open>truthy\<close>.
  \<^item> Numbers are \<open>int\<close>: the time stamps and lifetimes are integers, and floating point
    (\<^verbatim>\<open>NaN\<close> from a missing \<^verbatim>\<open>expires_in\<close>) is outside the model of the methods.
  \<^item> \<^verbatim>\<open>JSON.parse\<close> and \<^verbatim>\<open>JSON.stringify\<close> are library code: for the methods a token file
    is modelled by the value its text denotes at the declared type
    \<^verbatim>\<open>StoredTokenData | null\<close>, or as \<open>Corrupt\<close> when reading or parsing it throws.
    The part \<open>The token file as text\<close> models the text, the two library functions and
    numbers that are not finite, for the round trip of a record through the file.
  \<^item> A \<^verbatim>\<open>throw\<close> is a value of an error type; a \<^verbatim>\<open>try/catch\<close> is a case distinction.
\<close>

subsection \<open>Data\<close>

text \<open>\<^verbatim>\<open>interface StoredTokenData extends TokenData\<close>: the object that is cached, stored and
  returned. An object built as a plain \<^verbatim>\<open>TokenData\<close> has the three optional fields absent.\<close>

record StoredTokenData =
  accessToken :: string
  refreshToken :: string
  expiresAt :: int
  clientId :: "string option"
  clientSecret :: "string option"
  tenantId :: "string option"

text \<open>The JSON fields of the identity provider's answer that \<^verbatim>\<open>refreshToken\<close> consumes.\<close>

record token_response =
  access_token :: string
  refresh_token :: "string option"
  expires_in :: int

text \<open>The form that \<^verbatim>\<open>refreshToken\<close> posts, together with the endpoint it posts to.\<close>

record token_request =
  endpoint :: string
  form_client_id :: string
  form_client_secret :: string
  form_refresh_token :: string
  form_grant_type :: string
  form_scope :: string

text \<open>A parsed JSON body of the Graph API, which \<^verbatim>\<open>makeGraphRequest\<close> hands on unchanged.\<close>

datatype json =
  JNull | JBool bool | JNum int | JStr string | JArr "json list" | JObj "(string \<times> json) list"

text \<open>A \<^verbatim>\<open>fetch\<close> either throws (\<open>NetworkError\<close>) or yields a response. \<open>bodyText\<close> is what
  \<^verbatim>\<open>response.text()\<close> gives (the body has arrived with the response, so reading it as
  text does not throw), \<open>bodyJson\<close> what \<^verbatim>\<open>response.json()\<close> gives, \<open>None\<close> when it throws
  because the body is not JSON.\<close>

record 'j http_response =
  status :: nat
  bodyText :: string
  bodyJson :: "'j option"

datatype 'j fetch_result = NetworkError | Response "'j http_response"

record graph_request =
  url :: string
  http_method :: string
  authorization :: string
  request_body :: "json option"

text \<open>The contents of a token file: \<open>Json v\<close> when its text parses to \<open>v\<close> (\<open>None\<close> is the JSON
  text \<^verbatim>\<open>null\<close>), \<open>Corrupt\<close> when \<^verbatim>\<open>readFileSync\<close> or \<^verbatim>\<open>JSON.parse\<close> throws on it.\<close>

datatype file_content = Corrupt | Json "StoredTokenData option"

text \<open>The desktop configuration file, as far as \<^verbatim>\<open>updateClaudeConfig\<close> looks at it: unparseable,
  or parsed with or without an entry \<^verbatim>\<open>mcpServers["microsoft-todo"]\<close>; of the entry only its
  \<^verbatim>\<open>env\<close> map is kept (an absent \<^verbatim>\<open>env\<close> spreads like the empty map).\<close>

datatype claude_config = ConfigCorrupt | ConfigJson "(string \<rightharpoonup> string) option"

datatype fs_event = FsExists string | FsRead string | FsWrite string

datatype exn = FetchThrew | JsonThrew | WriteThrew string

datatype graph_error = GraphFetchThrew | GraphJsonThrew | HttpError nat string | AccountCapabilityError

datatype log_msg =
    LogMakingRequest string
  | LogRequestOptions string
  | LogGot401
  | LogHttpError nat string
  | LogMailboxBanner
  | LogDeleteSuccessful nat
  | LogResponseReceived json
  | LogErrorMakingGraphRequest graph_error
  | LogGetAccessTokenCalled
  | LogRetrievedValidToken
  | LogNoValidTokens
  | LogErrorReadingTokenFile
  | LogErrorReadingLegacyTokenFile
  | LogMissingClientCredentials
  | LogTokenRefreshFailed string
  | LogErrorRefreshingToken exn
  | LogReauthPrompt string
  | LogUpdatedClaudeConfig
  | LogCouldNotUpdateClaudeConfig

subsection \<open>The world\<close>

text \<open>
  \<^item> \<open>env\<close> is \<^verbatim>\<open>process.env\<close>; \<open>tokenFilePath\<close> is the field set by the constructor,
    \<open>legacyPath\<close> is \<^verbatim>\<open>join(process.cwd(), "tokens.json")\<close>; \<open>currentTokens\<close> is the
    private field of the single \<^verbatim>\<open>TokenManager\<close>.
  \<^item> \<open>files\<close> maps a path to the contents of the token file there; \<open>writable p\<close> tells
    whether \<^verbatim>\<open>writeFileSync\<close> on \<open>p\<close> succeeds (a failed write leaves the file as it
    was). The desktop configuration file has another base name than the token files,
    so it is kept apart in \<open>claudeConfig\<close> / \<open>claudeWritable\<close>.
  \<^item> \<open>clock\<close> is the sequence of readings that successive calls of \<^verbatim>\<open>Date.now()\<close>
    return, \<open>ticks\<close> the number of calls made so far.
  \<^item> \<open>tokenEndpoint n req\<close> is what the identity provider answers to request \<open>req\<close> when
    \<open>n\<close> requests were made before; \<open>graphApi\<close> likewise for the Graph API.
    \<open>tokenCalls\<close> and \<open>graphCalls\<close> log each \<^verbatim>\<open>fetch\<close> with its outcome.
  \<^item> \<open>console\<close> collects the \<^verbatim>\<open>console.error\<close> output, \<open>fsTrace\<close> the accesses to
    token files.
  \<^item> \<open>refreshCalls\<close> is instrumentation that the source does not have: the argument of
    each invocation of \<^verbatim>\<open>refreshToken\<close>, so that invocations can be counted.
\<close>

record world =
  env :: "string \<Rightarrow> string option"
  tokenFilePath :: string
  legacyPath :: string
  currentTokens :: "StoredTokenData option"
  files :: "string \<Rightarrow> file_content option"
  writable :: "string \<Rightarrow> bool"
  claudeConfig :: "claude_config option"
  claudeWritable :: bool
  clock :: "nat \<Rightarrow> int"
  ticks :: nat
  tokenEndpoint :: "nat \<Rightarrow> token_request \<Rightarrow> token_response fetch_result"
  tokenCalls :: "(token_request \<times> token_response fetch_result) list"
  graphApi :: "nat \<Rightarrow> graph_request \<Rightarrow> json fetch_result"
  graphCalls :: "(graph_request \<times> json fetch_result) list"
  console :: "log_msg list"
  fsTrace :: "fs_event list"
  refreshCalls :: "string list"

subsection \<open>JavaScript primitives\<close>

text \<open>Truthiness of a \<^verbatim>\<open>string | undefined\<close>: defined and not the empty string.\<close>

definition truthy :: "string option \<Rightarrow> bool" where
  "truthy v = (case v of None \<Rightarrow> False | Some s \<Rightarrow> s \<noteq> [])"

text \<open>\<^verbatim>\<open>a || b\<close> on such values.\<close>

definition js_or :: "string option \<Rightarrow> string option \<Rightarrow> string option" where
  "js_or a b = (if truthy a then a else b)"

text \<open>\<^verbatim>\<open>a || s\<close> where \<open>s\<close> is a string: the result is a string.\<close>

definition js_or_str :: "string option \<Rightarrow> string \<Rightarrow> string" where
  "js_or_str a s = (case a of None \<Rightarrow> s | Some x \<Rightarrow> if x = [] then s else x)"

text \<open>Truthiness of a request body.\<close>

definition truthy_body :: "json option \<Rightarrow> bool" where
  "truthy_body b =
     (case b of
        None \<Rightarrow> False
      | Some JNull \<Rightarrow> False
      | Some (JBool x) \<Rightarrow> x
      | Some (JNum n) \<Rightarrow> n \<noteq> 0
      | Some (JStr s) \<Rightarrow> s \<noteq> []
      | Some (JArr _) \<Rightarrow> True
      | Some (JObj _) \<Rightarrow> True)"

text \<open>\<^verbatim>\<open>s.includes(pat)\<close>: \<open>pat\<close> occurs in \<open>s\<close> as a contiguous piece.\<close>

fun includes_str :: "string \<Rightarrow> string \<Rightarrow> bool" where
  "includes_str [] pat = (pat = [])"
| "includes_str (c # cs) pat = (take (length pat) (c # cs) = pat \<or> includes_str cs pat)"

text \<open>The buffer \<^verbatim>\<open>5 * 60 * 1000\<close> that \<^verbatim>\<open>refreshToken\<close> takes off the reported lifetime, and
  the lifetime \<^verbatim>\<open>3600 * 1000\<close> that \<^verbatim>\<open>getTokens\<close> assumes for the environment's tokens.\<close>

definition safetyMargin :: int where
  "safetyMargin = 5 * 60 * 1000"

definition assumedLifetime :: int where
  "assumedLifetime = 3600 * 1000"

text \<open>\<^verbatim>\<open>response.ok\<close>.\<close>

definition ok :: "'j http_response \<Rightarrow> bool" where
  "ok r = (200 \<le> status r \<and> status r \<le> 299)"

text \<open>\<^verbatim>\<open>Date.now()\<close>.\<close>

definition dateNow :: "world \<Rightarrow> int \<times> world" where
  "dateNow w = (clock w (ticks w), w\<lparr>ticks := Suc (ticks w)\<rparr>)"

text \<open>\<^verbatim>\<open>console.error\<close>.\<close>

definition log :: "log_msg \<Rightarrow> world \<Rightarrow> world" where
  "log m w = w\<lparr>console := console w @ [m]\<rparr>"

definition trace :: "fs_event \<Rightarrow> world \<Rightarrow> world" where
  "trace e w = w\<lparr>fsTrace := fsTrace w @ [e]\<rparr>"

text \<open>\<^verbatim>\<open>fetch\<close> against the identity provider and against the Graph API.\<close>

definition fetchToken :: "token_request \<Rightarrow> world \<Rightarrow> token_response fetch_result \<times> world" where
  "fetchToken req w =
     (let r = tokenEndpoint w (length (tokenCalls w)) req
      in (r, w\<lparr>tokenCalls := tokenCalls w @ [(req, r)]\<rparr>))"

definition fetchGraph :: "graph_request \<Rightarrow> world \<Rightarrow> json fetch_result \<times> world" where
  "fetchGraph req w =
     (let r = graphApi w (length (graphCalls w)) req
      in (r, w\<lparr>graphCalls := graphCalls w @ [(req, r)]\<rparr>))"

subsection \<open>TokenManager\<close>

text \<open>The load that steps 2 and 3 of \<^verbatim>\<open>getTokens\<close> both perform on their path:
  \<^verbatim>\<open>existsSync(p)\<close>, then inside \<^verbatim>\<open>try\<close> \<^verbatim>\<open>JSON.parse(readFileSync(p, "utf8"))\<close>.\<close>

datatype load_result = Absent | Threw | Loaded "StoredTokenData option"

definition readTokenFile :: "string \<Rightarrow> world \<Rightarrow> load_result \<times> world" where
  "readTokenFile p w =
     (let w1 = trace (FsExists p) w
      in case files w1 p of
           None \<Rightarrow> (Absent, w1)
         | Some c \<Rightarrow>
             let w2 = trace (FsRead p) w1
             in (case c of Corrupt \<Rightarrow> (Threw, w2) | Json v \<Rightarrow> (Loaded v, w2)))"

text \<open>\<^verbatim>\<open>saveTokens\<close>: the cache is assigned first, then the file is written. The result is
  the exception of \<^verbatim>\<open>writeFileSync\<close>, if it throws. The parameter is optional because the
  legacy branch of \<^verbatim>\<open>getTokens\<close> passes the untyped result of \<^verbatim>\<open>JSON.parse\<close>.\<close>

definition saveTokens :: "StoredTokenData option \<Rightarrow> world \<Rightarrow> exn option \<times> world" where
  "saveTokens tokens w =
     (let w1 = w\<lparr>currentTokens := tokens\<rparr>;
          p = tokenFilePath w1;
          w2 = trace (FsWrite p) w1
      in if writable w2 p
         then (None, w2\<lparr>files := (files w2)(p \<mapsto> Json tokens)\<rparr>)
         else (Some (WriteThrew p), w2))"

text \<open>\<^verbatim>\<open>updateClaudeConfig\<close>: its whole body is inside \<^verbatim>\<open>try/catch\<close>, so it returns normally.\<close>

definition updateClaudeConfig :: "StoredTokenData \<Rightarrow> world \<Rightarrow> world" where
  "updateClaudeConfig tokens w =
     (case claudeConfig w of
        None \<Rightarrow> w
      | Some ConfigCorrupt \<Rightarrow> log LogCouldNotUpdateClaudeConfig w
      | Some (ConfigJson None) \<Rightarrow> w
      | Some (ConfigJson (Some e)) \<Rightarrow>
          if claudeWritable w
          then log LogUpdatedClaudeConfig
                 (w\<lparr>claudeConfig := Some (ConfigJson (Some
                       (e(''MS_TODO_ACCESS_TOKEN'' \<mapsto> accessToken tokens,
                          ''MS_TODO_REFRESH_TOKEN'' \<mapsto> refreshToken tokens))))\<rparr>)
          else log LogCouldNotUpdateClaudeConfig w)"

text \<open>\<^verbatim>\<open>promptForReauth\<close>: one message, which names \<^verbatim>\<open>this.tokenFilePath\<close>.\<close>

definition promptForReauth :: "world \<Rightarrow> world" where
  "promptForReauth w = log (LogReauthPrompt (tokenFilePath w)) w"

text \<open>\<^verbatim>\<open>this.currentTokens?.f\<close>.\<close>

definition cached :: "(StoredTokenData \<Rightarrow> string option) \<Rightarrow> world \<Rightarrow> string option" where
  "cached f w = (case currentTokens w of None \<Rightarrow> None | Some t \<Rightarrow> f t)"

text \<open>The handler of \<^verbatim>\<open>refreshToken\<close>'s \<^verbatim>\<open>catch\<close>.\<close>

definition refreshToken_catch :: "exn \<Rightarrow> world \<Rightarrow> StoredTokenData option \<times> world" where
  "refreshToken_catch e w = (None, promptForReauth (log (LogErrorRefreshingToken e) w))"

text \<open>The client credentials that \<^verbatim>\<open>refreshToken\<close> resolves: from the cached record, else
  from the environment; the tenant defaults to \<^verbatim>\<open>"organizations"\<close>.\<close>

definition resolvedClientId :: "world \<Rightarrow> string option" where
  "resolvedClientId w = js_or (cached clientId w) (env w ''CLIENT_ID'')"

definition resolvedClientSecret :: "world \<Rightarrow> string option" where
  "resolvedClientSecret w = js_or (cached clientSecret w) (env w ''CLIENT_SECRET'')"

definition resolvedTenantId :: "world \<Rightarrow> string" where
  "resolvedTenantId w = js_or_str (js_or (cached tenantId w) (env w ''TENANT_ID'')) ''organizations''"

text \<open>The request that \<^verbatim>\<open>refreshToken\<close> sends: \<^verbatim>\<open>tokenEndpoint\<close> and \<^verbatim>\<open>formData\<close>.\<close>

definition refreshRequest :: "string \<Rightarrow> world \<Rightarrow> token_request" where
  "refreshRequest rt w =
     \<lparr>endpoint = ''https://login.microsoftonline.com/'' @ resolvedTenantId w @ ''/oauth2/v2.0/token'',
      form_client_id = js_or_str (resolvedClientId w) [],
      form_client_secret = js_or_str (resolvedClientSecret w) [],
      form_refresh_token = rt,
      form_grant_type = ''refresh_token'',
      form_scope = ''offline_access Tasks.Read Tasks.ReadWrite Tasks.Read.Shared Tasks.ReadWrite.Shared User.Read''\<rparr>"

text \<open>\<^verbatim>\<open>refreshToken(refreshToken)\<close>; the suffix keeps the method apart from the field of
  the same name. The first line is the instrumentation.\<close>

definition refreshToken_fn :: "string \<Rightarrow> world \<Rightarrow> StoredTokenData option \<times> world" where
  "refreshToken_fn rt w0 =
     (let w = w0\<lparr>refreshCalls := refreshCalls w0 @ [rt]\<rparr>
      in if \<not> truthy (resolvedClientId w) \<or> \<not> truthy (resolvedClientSecret w)
         then (None, log LogMissingClientCredentials w)
         else
           case fetchToken (refreshRequest rt w) w of
             (NetworkError, w1) \<Rightarrow> refreshToken_catch FetchThrew w1
           | (Response r, w1) \<Rightarrow>
               if \<not> ok r
               then (None, promptForReauth (log (LogTokenRefreshFailed (bodyText r)) w1))
               else
                 (case bodyJson r of
                    None \<Rightarrow> refreshToken_catch JsonThrew w1
                  | Some data \<Rightarrow>
                      let (now, w2) = dateNow w1;
                          newTokens = \<lparr>accessToken = access_token data,
                                       refreshToken = js_or_str (refresh_token data) rt,
                                       expiresAt = now + expires_in data * 1000 - safetyMargin,
                                       clientId = resolvedClientId w,
                                       clientSecret = resolvedClientSecret w,
                                       tenantId = Some (resolvedTenantId w)\<rparr>
                      in case saveTokens (Some newTokens) w2 of
                           (Some e, w3) \<Rightarrow> refreshToken_catch e w3
                         | (None, w3) \<Rightarrow> (Some newTokens, updateClaudeConfig newTokens w3)))"

text \<open>The ways in which \<^verbatim>\<open>refreshToken\<close> returns \<^verbatim>\<open>null\<close> before it reaches \<^verbatim>\<open>saveTokens\<close>:
  the client credentials are missing (line 2328), \<^verbatim>\<open>fetch\<close> throws, the answer is not a
  success (line 2351), or \<^verbatim>\<open>response.json()\<close> throws.\<close>

definition refreshStopsBeforeSave :: "string \<Rightarrow> world \<Rightarrow> bool" where
  "refreshStopsBeforeSave rt w =
     (\<not> truthy (resolvedClientId w) \<or> \<not> truthy (resolvedClientSecret w) \<or>
      (case tokenEndpoint w (length (tokenCalls w)) (refreshRequest rt w) of
         NetworkError \<Rightarrow> True
       | Response r \<Rightarrow> \<not> ok r \<or> bodyJson r = None))"

text \<open>\<^verbatim>\<open>getTokens\<close>, step 3: the legacy token file. An exception of the load or of
  \<^verbatim>\<open>saveTokens\<close> is logged, and \<^verbatim>\<open>null\<close> is returned.\<close>

definition getTokens_legacy :: "world \<Rightarrow> StoredTokenData option \<times> world" where
  "getTokens_legacy w =
     (case readTokenFile (legacyPath w) w of
        (Absent, w1) \<Rightarrow> (None, w1)
      | (Threw, w1) \<Rightarrow> (None, log LogErrorReadingLegacyTokenFile w1)
      | (Loaded tokens, w1) \<Rightarrow>
          (case saveTokens tokens w1 of
             (Some e, w2) \<Rightarrow> (None, log LogErrorReadingLegacyTokenFile w2)
           | (None, w2) \<Rightarrow> (tokens, w2)))"

text \<open>\<^verbatim>\<open>getTokens\<close>, step 2: the stored token file; every way out of it that does not
  return goes on to step 3.\<close>

definition getTokens_stored :: "world \<Rightarrow> StoredTokenData option \<times> world" where
  "getTokens_stored w =
     (case readTokenFile (tokenFilePath w) w of
        (Absent, w1) \<Rightarrow> getTokens_legacy w1
      | (Threw, w1) \<Rightarrow> getTokens_legacy (log LogErrorReadingTokenFile w1)
      | (Loaded v, w1) \<Rightarrow>
          let w2 = w1\<lparr>currentTokens := v\<rparr>
          in (case v of
                None \<Rightarrow> getTokens_legacy w2
              | Some t \<Rightarrow>
                  let (now, w3) = dateNow w2
                  in if now > expiresAt t
                     then (case refreshToken_fn (refreshToken t) w3 of
                             (Some refreshed, w4) \<Rightarrow> (Some refreshed, w4)
                           | (None, w4) \<Rightarrow> (currentTokens w4, w4))
                     else (currentTokens w3, w3)))"

text \<open>\<^verbatim>\<open>getTokens\<close>: step 1, the pair of environment variables, then the steps above.\<close>

definition getTokens :: "world \<Rightarrow> StoredTokenData option \<times> world" where
  "getTokens w =
     (if truthy (env w ''MS_TODO_ACCESS_TOKEN'') \<and> truthy (env w ''MS_TODO_REFRESH_TOKEN'')
      then
        let (now1, w1) = dateNow w;
            envTokens = \<lparr>accessToken = js_or_str (env w ''MS_TODO_ACCESS_TOKEN'') [],
                         refreshToken = js_or_str (env w ''MS_TODO_REFRESH_TOKEN'') [],
                         expiresAt = now1 + assumedLifetime,
                         clientId = None, clientSecret = None, tenantId = None\<rparr>;
            (now2, w2) = dateNow w1
        in if now2 > expiresAt envTokens
           then (case refreshToken_fn (refreshToken envTokens) w2 of
                   (Some refreshed, w3) \<Rightarrow> (Some refreshed, w3)
                 | (None, w3) \<Rightarrow> (Some envTokens, w3))
           else (Some envTokens, w2)
      else getTokens_stored w)"

subsection \<open>The request client\<close>

text \<open>\<^verbatim>\<open>getAccessToken\<close>; \<^verbatim>\<open>getTokens\<close> returns normally, so the \<^verbatim>\<open>catch\<close> is never entered.\<close>

definition getAccessToken :: "world \<Rightarrow> string option \<times> world" where
  "getAccessToken w =
     (case getTokens (log LogGetAccessTokenCalled w) of
        (Some tokens, w1) \<Rightarrow> (Some (accessToken tokens), log LogRetrievedValidToken w1)
      | (None, w1) \<Rightarrow> (None, log LogNoValidTokens w1))"

text \<open>Lines 68 to 105 of \<^verbatim>\<open>makeGraphRequest\<close>: what is done with the response that is
  current after the 401 handling. \<open>Inl\<close> is a \<^verbatim>\<open>throw\<close>.\<close>

definition handleResponse ::
  "string \<Rightarrow> json http_response \<Rightarrow> world \<Rightarrow> (graph_error + json) \<times> world" where
  "handleResponse method response w =
     (if \<not> ok response
      then
        let errorText = bodyText response;
            w1 = log (LogHttpError (status response) errorText) w
        in if includes_str errorText ''MailboxNotEnabledForRESTAPI''
           then (Inl AccountCapabilityError, log LogMailboxBanner w1)
           else (Inl (HttpError (status response) errorText), w1)
      else if method = ''DELETE''
      then (Inr (JObj []), log (LogDeleteSuccessful (status response)) w)
      else (case bodyJson response of
              None \<Rightarrow> (Inl GraphJsonThrew, w)
            | Some data \<Rightarrow> (Inr data, log (LogResponseReceived data) w)))"

text \<open>The request that \<^verbatim>\<open>fetch(url, options)\<close> sends: the headers carry the bearer token,
  and a body is attached only to \<^verbatim>\<open>POST\<close> and \<^verbatim>\<open>PATCH\<close>.\<close>

definition graphOptions :: "string \<Rightarrow> string \<Rightarrow> string \<Rightarrow> json option \<Rightarrow> graph_request" where
  "graphOptions u token method body =
     \<lparr>url = u, http_method = method, authorization = ''Bearer '' @ token,
      request_body = (if truthy_body body \<and> (method = ''POST'' \<or> method = ''PATCH'')
                      then body else None)\<rparr>"

text \<open>The body of the \<^verbatim>\<open>try\<close> of \<^verbatim>\<open>makeGraphRequest\<close>. The retry sends the same options with
  the \<^verbatim>\<open>Authorization\<close> header replaced.\<close>

definition makeGraphRequest_try ::
  "string \<Rightarrow> string \<Rightarrow> string \<Rightarrow> json option \<Rightarrow> world \<Rightarrow> (graph_error + json) \<times> world" where
  "makeGraphRequest_try u token method body w =
     (let w0 = log (LogRequestOptions method) (log (LogMakingRequest u) w)
      in case fetchGraph (graphOptions u token method body) w0 of
           (NetworkError, w1) \<Rightarrow> (Inl GraphFetchThrew, w1)
         | (Response response, w1) \<Rightarrow>
             if status response = 401
             then
               (case getAccessToken (log LogGot401 w1) of
                  (newToken, w2) \<Rightarrow>
                    if truthy newToken \<and> newToken \<noteq> Some token
                    then (case fetchGraph (graphOptions u (js_or_str newToken []) method body) w2 of
                            (NetworkError, w3) \<Rightarrow> (Inl GraphFetchThrew, w3)
                          | (Response response2, w3) \<Rightarrow> handleResponse method response2 w3)
                    else handleResponse method response w2)
             else handleResponse method response w1)"

text \<open>\<^verbatim>\<open>makeGraphRequest\<close>: the \<^verbatim>\<open>catch\<close> logs whatever was thrown and returns \<^verbatim>\<open>null\<close>.\<close>

definition makeGraphRequest ::
  "string \<Rightarrow> string \<Rightarrow> string \<Rightarrow> json option \<Rightarrow> world \<Rightarrow> json option \<times> world" where
  "makeGraphRequest u token method body w =
     (case makeGraphRequest_try u token method body w of
        (Inr data, w1) \<Rightarrow> (Some data, w1)
      | (Inl e, w1) \<Rightarrow> (None, log (LogErrorMakingGraphRequest e) w1))"

subsection \<open>Sample data\<close>

text \<open>A stored record whose expiry lies before every reading of the sample clock, and a world
  in which nothing is configured: no environment variables, no files, no cached record,
  both services unreachable. The worlds of the examples below are updates of it.\<close>

definition sample_record :: StoredTokenData where
  "sample_record = \<lparr>accessToken = ''A1'', refreshToken = ''R1'', expiresAt = 1700000000000,
                     clientId = Some ''app'', clientSecret = Some ''secret'', tenantId = None\<rparr>"

definition idle_world :: world where
  "idle_world =
     \<lparr>env = (\<lambda>_. None),
      tokenFilePath = ''/cfg/tokens.json'',
      legacyPath = ''/cwd/tokens.json'',
      currentTokens = None,
      files = (\<lambda>_. None),
      writable = (\<lambda>_. True),
      claudeConfig = None,
      claudeWritable = True,
      clock = (\<lambda>n. 1700000600000 + int n),
      ticks = 0,
      tokenEndpoint = (\<lambda>_ _. NetworkError),
      tokenCalls = [],
      graphApi = (\<lambda>_ _. NetworkError),
      graphCalls = [],
      console = [],
      fsTrace = [],
      refreshCalls = []\<rparr>"

text \<open>An identity provider that grants every refresh without rotating the refresh token, and
  one that rejects every refresh.\<close>

definition provider_ok :: "nat \<Rightarrow> token_request \<Rightarrow> token_response fetch_result" where
  "provider_ok = (\<lambda>_ _. Response \<lparr>status = 200, bodyText = [],
       bodyJson = Some \<lparr>access_token = ''A2'', refresh_token = None, expires_in = 3600\<rparr>\<rparr>)"

definition provider_rejects :: "nat \<Rightarrow> token_request \<Rightarrow> token_response fetch_result" where
  "provider_rejects = (\<lambda>_ _. Response \<lparr>status = 400, bodyText = ''invalid_grant'', bodyJson = None\<rparr>)"

text \<open>A pair of tokens in the environment, and a clock whose successive readings lie more
  than the assumed lifetime apart (the only way for the environment's tokens, stamped
  on one reading and checked on the next, to be found expired).\<close>

definition env_pair :: "string \<Rightarrow> string option" where
  "env_pair = [''MS_TODO_ACCESS_TOKEN'' \<mapsto> ''EA'', ''MS_TODO_REFRESH_TOKEN'' \<mapsto> ''ER'']"

definition leaping_clock :: "nat \<Rightarrow> int" where
  "leaping_clock n = 1700000600000 + 4000000 * int n"

text \<open>Graph services: one that accepts only the refreshed token \<^verbatim>\<open>A2\<close>; one that answers
  401 to everything; one whose 401 carries the mailbox error; one that answers 403 with
  the mailbox error; one that answers 500.\<close>

definition lists_url :: string where
  "lists_url = ''https://graph.microsoft.com/v1.0/me/todo/lists''"

definition graph_wants_A2 :: "nat \<Rightarrow> graph_request \<Rightarrow> json fetch_result" where
  "graph_wants_A2 = (\<lambda>_ req.
     if authorization req = ''Bearer A2''
     then Response \<lparr>status = 200, bodyText = ''value'', bodyJson = Some (JObj [(''value'', JArr [])])\<rparr>
     else Response \<lparr>status = 401, bodyText = ''InvalidAuthenticationToken'', bodyJson = None\<rparr>)"

definition graph_unauthorized :: "nat \<Rightarrow> graph_request \<Rightarrow> json fetch_result" where
  "graph_unauthorized = (\<lambda>_ _.
     Response \<lparr>status = 401, bodyText = ''InvalidAuthenticationToken'', bodyJson = None\<rparr>)"

definition graph_unauthorized_mailbox :: "nat \<Rightarrow> graph_request \<Rightarrow> json fetch_result" where
  "graph_unauthorized_mailbox = (\<lambda>_ _.
     Response \<lparr>status = 401, bodyText = ''code: MailboxNotEnabledForRESTAPI'', bodyJson = None\<rparr>)"

definition graph_mailbox :: "nat \<Rightarrow> graph_request \<Rightarrow> json fetch_result" where
  "graph_mailbox = (\<lambda>_ _.
     Response \<lparr>status = 403, bodyText = ''code: MailboxNotEnabledForRESTAPI'', bodyJson = None\<rparr>)"

definition graph_server_error :: "nat \<Rightarrow> graph_request \<Rightarrow> json fetch_result" where
  "graph_server_error = (\<lambda>_ _.
     Response \<lparr>status = 500, bodyText = ''InternalServerError'', bodyJson = None\<rparr>)"

subsection \<open>The token file as text\<close>

text \<open>
  The functions above treat a token file as the value its text denotes. This part models the
  text itself, for the question whether what \<^verbatim>\<open>saveTokens\<close> writes is what a later load reads:
  JavaScript values, \<^verbatim>\<open>JSON.stringify(value, null, 2)\<close> and \<^verbatim>\<open>JSON.parse\<close> after ECMA-262
  (sections 25.5.2 and 25.5.1), and \<^verbatim>\<open>saveTokens\<close> and the load of \<^verbatim>\<open>getTokens\<close> over files that
  hold text.

  A number is an integer-valued double \<open>NumInt i\<close> (meant for \<open>\<bar>i\<bar> < 2^53\<close>, where the decimal
  numeral is what \<^verbatim>\<open>Number::toString\<close> prints), \<^verbatim>\<open>NaN\<close> or an infinity; fractions are
  outside the model, and the parser rejects a numeral with a fraction or an exponent.
  A string is a list of 8-bit characters. An object is the list of its properties in
  creation order.
\<close>

datatype jsnumber = NumInt int | NumNaN | NumPosInf | NumNegInf

datatype jsval =
  VUndefined | VNull | VBool bool | VNumber jsnumber | VString string
  | VArray "jsval list" | VObject "(string \<times> jsval) list"

text \<open>Characters and their classes.\<close>

definition dquote :: char where "dquote = CHR 0x22"
definition backslash :: char where "backslash = CHR 0x5C"

definition is_ws :: "char \<Rightarrow> bool" where
  "is_ws c = (c = CHR '' '' \<or> c = CHR 0x09 \<or> c = CHR 0x0A \<or> c = CHR 0x0D)"

definition is_digit :: "char \<Rightarrow> bool" where
  "is_digit c = (48 \<le> (of_char c :: nat) \<and> (of_char c :: nat) \<le> 57)"

definition digit_char :: "nat \<Rightarrow> char" where
  "digit_char n = char_of (48 + n)"

definition hex_digit :: "nat \<Rightarrow> char" where
  "hex_digit n = (if n < 10 then char_of (48 + n) else char_of (87 + n))"

definition hex_val :: "char \<Rightarrow> nat option" where
  "hex_val c =
     (let k = (of_char c :: nat)
      in if 48 \<le> k \<and> k \<le> 57 then Some (k - 48)
         else if 97 \<le> k \<and> k \<le> 102 then Some (k - 87)
         else if 65 \<le> k \<and> k \<le> 70 then Some (k - 55)
         else None)"

text \<open>\<^verbatim>\<open>Number::toString\<close> on an integer, and \<^verbatim>\<open>SerializeJSONProperty\<close> on a number: a number
  that is not finite is written as \<^verbatim>\<open>null\<close>.\<close>

fun show_nat :: "nat \<Rightarrow> string" where
  "show_nat n = (if n < 10 then [digit_char n] else show_nat (n div 10) @ [digit_char (n mod 10)])"

declare show_nat.simps [simp del]

definition show_int :: "int \<Rightarrow> string" where
  "show_int i = (if i < 0 then CHR ''-'' # show_nat (nat (- i)) else show_nat (nat i))"

definition render_number :: "jsnumber \<Rightarrow> string" where
  "render_number x = (case x of NumInt i \<Rightarrow> show_int i | _ \<Rightarrow> ''null'')"

text \<open>\<^verbatim>\<open>QuoteJSONString\<close>: the two-character escapes, \<^verbatim>\<open>\u00XX\<close> for the other control
  characters, every other character as itself.\<close>

definition escape_char :: "char \<Rightarrow> string" where
  "escape_char c =
     (if c = dquote then [backslash, dquote]
      else if c = backslash then [backslash, backslash]
      else if c = CHR 0x08 then [backslash, CHR ''b'']
      else if c = CHR 0x0C then [backslash, CHR ''f'']
      else if c = CHR 0x0A then [backslash, CHR ''n'']
      else if c = CHR 0x0D then [backslash, CHR ''r'']
      else if c = CHR 0x09 then [backslash, CHR ''t'']
      else if (of_char c :: nat) < 32
      then [backslash, CHR ''u'', CHR ''0'', CHR ''0'',
            hex_digit (of_char c div 16), hex_digit (of_char c mod 16)]
      else [c])"

definition quote :: "string \<Rightarrow> string" where
  "quote s = dquote # concat (map escape_char s) @ [dquote]"

text \<open>\<^verbatim>\<open>SerializeJSONArray\<close>, \<^verbatim>\<open>SerializeJSONObject\<close> and \<^verbatim>\<open>SerializeJSONProperty\<close> with the
  gap of two spaces; \<open>d\<close> is the depth of the value. \<open>None\<close> is the result \<^verbatim>\<open>undefined\<close>:
  a property whose value is \<^verbatim>\<open>undefined\<close> is left out of an object and written as
  \<^verbatim>\<open>null\<close> in an array.\<close>

definition newline_indent :: "nat \<Rightarrow> string" where
  "newline_indent d = CHR 0x0A # replicate (2 * d) CHR '' ''"

fun join :: "string \<Rightarrow> string list \<Rightarrow> string" where
  "join sep [] = []"
| "join sep [x] = x"
| "join sep (x # y # ys) = x @ sep @ join sep (y # ys)"

definition render_array :: "nat \<Rightarrow> string option list \<Rightarrow> string" where
  "render_array d parts =
     (if parts = [] then ''[]''
      else ''['' @ newline_indent (Suc d) @
           join ('','' @ newline_indent (Suc d))
             (map (\<lambda>p. case p of None \<Rightarrow> ''null'' | Some t \<Rightarrow> t) parts) @
           newline_indent d @ '']'')"

definition render_members :: "(string \<times> string option) list \<Rightarrow> string list" where
  "render_members ms = concat (map (\<lambda>(k, p). case p of None \<Rightarrow> [] | Some t \<Rightarrow> [quote k @ '': '' @ t]) ms)"

definition render_object :: "nat \<Rightarrow> (string \<times> string option) list \<Rightarrow> string" where
  "render_object d ms =
     (if render_members ms = [] then ''{}''
      else ''{'' @ newline_indent (Suc d) @
           join ('','' @ newline_indent (Suc d)) (render_members ms) @
           newline_indent d @ ''}'')"

primrec render :: "jsval \<Rightarrow> nat \<Rightarrow> string option" where
  "render VUndefined = (\<lambda>d. None)"
| "render VNull = (\<lambda>d. Some ''null'')"
| "render (VBool b) = (\<lambda>d. Some (if b then ''true'' else ''false''))"
| "render (VNumber x) = (\<lambda>d. Some (render_number x))"
| "render (VString s) = (\<lambda>d. Some (quote s))"
| "render (VArray xs) = (\<lambda>d. Some (render_array d (map (\<lambda>x. render x (Suc d)) xs)))"
| "render (VObject ms) = (\<lambda>d. Some (render_object d (map (map_prod id (\<lambda>v. render v (Suc d))) ms)))"

definition JSON_stringify :: "jsval \<Rightarrow> string option" where
  "JSON_stringify v = render v 0"

text \<open>The scanner of \<^verbatim>\<open>JSON.parse\<close>: white space, string literals, numerals.\<close>

fun skip_ws :: "string \<Rightarrow> string" where
  "skip_ws [] = []"
| "skip_ws (c # cs) = (if is_ws c then skip_ws cs else c # cs)"

definition unescape :: "char \<Rightarrow> char option" where
  "unescape e =
     (if e = dquote then Some dquote
      else if e = backslash then Some backslash
      else if e = CHR ''/'' then Some CHR ''/''
      else if e = CHR ''b'' then Some (CHR 0x08)
      else if e = CHR ''f'' then Some (CHR 0x0C)
      else if e = CHR ''n'' then Some (CHR 0x0A)
      else if e = CHR ''r'' then Some (CHR 0x0D)
      else if e = CHR ''t'' then Some (CHR 0x09)
      else None)"

definition hex4 :: "char \<Rightarrow> char \<Rightarrow> char \<Rightarrow> char \<Rightarrow> nat option" where
  "hex4 a b c d =
     (case (hex_val a, hex_val b, hex_val c, hex_val d) of
        (Some x, Some y, Some z, Some u) \<Rightarrow> Some (((x * 16 + y) * 16 + z) * 16 + u)
      | _ \<Rightarrow> None)"

definition cons_fst :: "'a \<Rightarrow> ('a list \<times> 'b) option \<Rightarrow> ('a list \<times> 'b) option" where
  "cons_fst x r = (case r of None \<Rightarrow> None | Some (xs, rest) \<Rightarrow> Some (x # xs, rest))"

fun parse_chars :: "string \<Rightarrow> (string \<times> string) option" where
  "parse_chars [] = None"
| "parse_chars (c # cs) =
     (if c = dquote then Some ([], cs)
      else if c = backslash
      then (case cs of
              [] \<Rightarrow> None
            | e # cs' \<Rightarrow>
                if e = CHR ''u''
                then (case cs' of
                        h1 # h2 # h3 # h4 # rest \<Rightarrow>
                          (case hex4 h1 h2 h3 h4 of
                             None \<Rightarrow> None
                           | Some n \<Rightarrow> if n < 256 then cons_fst (char_of n) (parse_chars rest) else None)
                      | _ \<Rightarrow> None)
                else (case unescape e of
                        None \<Rightarrow> None
                      | Some c' \<Rightarrow> cons_fst c' (parse_chars cs')))
      else if (of_char c :: nat) < 32 then None
      else cons_fst c (parse_chars cs))"

definition digits_value :: "string \<Rightarrow> nat" where
  "digits_value ds = foldl (\<lambda>a c. 10 * a + (of_char c - 48)) 0 ds"

definition parse_number :: "string \<Rightarrow> (jsval \<times> string) option" where
  "parse_number s =
     (let neg = (s \<noteq> [] \<and> hd s = CHR ''-'');
          s1 = (if neg then tl s else s);
          ds = takeWhile is_digit s1;
          rest = dropWhile is_digit s1
      in if ds = [] then None
         else if length ds > 1 \<and> hd ds = CHR ''0'' then None
         else if rest \<noteq> [] \<and> (hd rest = CHR ''.'' \<or> hd rest = CHR ''e'' \<or> hd rest = CHR ''E'') then None
         else Some (VNumber (NumInt (if neg then - int (digits_value ds) else int (digits_value ds))), rest))"

text \<open>The parser. The first argument bounds the depth of the recursion; \<open>JSON_parse\<close> starts
  it above the length of the text, and \<open>None\<close> is the \<^verbatim>\<open>SyntaxError\<close>.\<close>

definition strip_prefix :: "string \<Rightarrow> string \<Rightarrow> string option" where
  "strip_prefix p s = (if take (length p) s = p then Some (drop (length p) s) else None)"

fun parse_value :: "nat \<Rightarrow> string \<Rightarrow> (jsval \<times> string) option"
  and parse_elements :: "nat \<Rightarrow> string \<Rightarrow> (jsval list \<times> string) option"
  and parse_members :: "nat \<Rightarrow> string \<Rightarrow> ((string \<times> jsval) list \<times> string) option"
where
  "parse_value 0 s = None"
| "parse_value (Suc n) s =
     (case skip_ws s of
        [] \<Rightarrow> None
      | c # cs \<Rightarrow>
          if c = CHR ''{''
          then (case skip_ws cs of
                  [] \<Rightarrow> None
                | c2 # cs2 \<Rightarrow>
                    if c2 = CHR ''}'' then Some (VObject [], cs2)
                    else (case parse_members n (c2 # cs2) of
                            None \<Rightarrow> None
                          | Some (ms, rest) \<Rightarrow> Some (VObject ms, rest)))
          else if c = CHR ''[''
          then (case skip_ws cs of
                  [] \<Rightarrow> None
                | c2 # cs2 \<Rightarrow>
                    if c2 = CHR '']'' then Some (VArray [], cs2)
                    else (case parse_elements n (c2 # cs2) of
                            None \<Rightarrow> None
                          | Some (xs, rest) \<Rightarrow> Some (VArray xs, rest)))
          else if c = dquote
          then (case parse_chars cs of
                  None \<Rightarrow> None
                | Some (str, rest) \<Rightarrow> Some (VString str, rest))
          else if c = CHR ''-'' \<or> is_digit c then parse_number (c # cs)
          else (case strip_prefix ''null'' (c # cs) of
                  Some rest \<Rightarrow> Some (VNull, rest)
                | None \<Rightarrow>
                    (case strip_prefix ''true'' (c # cs) of
                       Some rest \<Rightarrow> Some (VBool True, rest)
                     | None \<Rightarrow>
                         (case strip_prefix ''false'' (c # cs) of
                            Some rest \<Rightarrow> Some (VBool False, rest)
                          | None \<Rightarrow> None))))"
| "parse_elements 0 s = None"
| "parse_elements (Suc n) s =
     (case parse_value n s of
        None \<Rightarrow> None
      | Some (v, r) \<Rightarrow>
          (case skip_ws r of
             [] \<Rightarrow> None
           | c # cs \<Rightarrow>
               if c = CHR '','' then cons_fst v (parse_elements n cs)
               else if c = CHR '']'' then Some ([v], cs)
               else None))"
| "parse_members 0 s = None"
| "parse_members (Suc n) s =
     (case skip_ws s of
        [] \<Rightarrow> None
      | c # cs \<Rightarrow>
          if c \<noteq> dquote then None
          else (case parse_chars cs of
                  None \<Rightarrow> None
                | Some (k, r) \<Rightarrow>
                    (case skip_ws r of
                       [] \<Rightarrow> None
                     | c2 # cs2 \<Rightarrow>
                         if c2 \<noteq> CHR '':'' then None
                         else (case parse_value n cs2 of
                                 None \<Rightarrow> None
                               | Some (v, r2) \<Rightarrow>
                                   (case skip_ws r2 of
                                      [] \<Rightarrow> None
                                    | c3 # cs3 \<Rightarrow>
                                        if c3 = CHR '','' then cons_fst (k, v) (parse_members n cs3)
                                        else if c3 = CHR ''}'' then Some ([(k, v)], cs3)
                                        else None)))))"

definition JSON_parse :: "string \<Rightarrow> jsval option" where
  "JSON_parse txt =
     (case parse_value (Suc (length txt)) txt of
        None \<Rightarrow> None
      | Some (v, rest) \<Rightarrow> if skip_ws rest = [] then Some v else None)"

text \<open>Reading a property, \<^verbatim>\<open>v[k]\<close>: the last property of that name, \<^verbatim>\<open>undefined\<close> when there
  is none or \<open>v\<close> is not an object.\<close>

definition getField :: "string \<Rightarrow> jsval \<Rightarrow> jsval" where
  "getField k v =
     (case v of
        VObject ms \<Rightarrow> (case map_of (rev ms) k of None \<Rightarrow> VUndefined | Some x \<Rightarrow> x)
      | _ \<Rightarrow> VUndefined)"

text \<open>An object of type \<^verbatim>\<open>StoredTokenData\<close> as a JavaScript value, with the properties in the
  order of the object literal in \<^verbatim>\<open>refreshToken\<close>; \<open>objectOf\<close> is the object of a record of
  the typed model, and \<open>recordOf\<close> reads a value back at that type.\<close>

definition optString :: "string option \<Rightarrow> jsval" where
  "optString s = (case s of None \<Rightarrow> VUndefined | Some x \<Rightarrow> VString x)"

definition tokenObject ::
  "string \<Rightarrow> string \<Rightarrow> jsnumber \<Rightarrow> string option \<Rightarrow> string option \<Rightarrow> string option \<Rightarrow> jsval" where
  "tokenObject a r e cid cs tid =
     VObject [(''accessToken'', VString a), (''refreshToken'', VString r), (''expiresAt'', VNumber e),
              (''clientId'', optString cid), (''clientSecret'', optString cs),
              (''tenantId'', optString tid)]"

definition objectOf :: "StoredTokenData \<Rightarrow> jsval" where
  "objectOf t =
     tokenObject (accessToken t) (refreshToken t) (NumInt (expiresAt t))
       (clientId t) (clientSecret t) (tenantId t)"

definition stringField :: "jsval \<Rightarrow> string option" where
  "stringField v = (case v of VString s \<Rightarrow> Some s | _ \<Rightarrow> None)"

definition integerField :: "jsval \<Rightarrow> int option" where
  "integerField v = (case v of VNumber (NumInt n) \<Rightarrow> Some n | _ \<Rightarrow> None)"

definition recordOf :: "jsval \<Rightarrow> StoredTokenData option" where
  "recordOf v =
     (case (stringField (getField ''accessToken'' v), stringField (getField ''refreshToken'' v),
            integerField (getField ''expiresAt'' v)) of
        (Some a, Some r, Some n) \<Rightarrow>
          Some \<lparr>accessToken = a, refreshToken = r, expiresAt = n,
                clientId = stringField (getField ''clientId'' v),
                clientSecret = stringField (getField ''clientSecret'' v),
                tenantId = stringField (getField ''tenantId'' v)\<rparr>
      | _ \<Rightarrow> None)"

text \<open>The part of the process that \<^verbatim>\<open>saveTokens\<close> and the load touch: \<^verbatim>\<open>this.tokenFilePath\<close>,
  \<^verbatim>\<open>this.currentTokens\<close>, the text of every file, and which paths can be written.\<close>

record token_store =
  storePath :: string
  storeCache :: jsval
  storeFiles :: "string \<Rightarrow> string option"
  storeWritable :: "string \<Rightarrow> bool"

text \<open>\<^verbatim>\<open>saveTokens\<close> (src/token-manager.ts):
  \<^verbatim>\<open>this.currentTokens = tokens; writeFileSync(this.tokenFilePath, JSON.stringify(tokens, null, 2), "utf8")\<close>.
  The cache is assigned first. \<^verbatim>\<open>writeFileSync\<close> throws when the path cannot be written, and
  also when \<^verbatim>\<open>JSON.stringify\<close> gave \<^verbatim>\<open>undefined\<close>.\<close>

definition saveTokens_text :: "jsval \<Rightarrow> token_store \<Rightarrow> exn option \<times> token_store" where
  "saveTokens_text tokens st =
     (let st1 = st\<lparr>storeCache := tokens\<rparr>
      in case JSON_stringify tokens of
           None \<Rightarrow> (Some (WriteThrew (storePath st1)), st1)
         | Some txt \<Rightarrow>
             if storeWritable st1 (storePath st1)
             then (None, st1\<lparr>storeFiles := (storeFiles st1)(storePath st1 \<mapsto> txt)\<rparr>)
             else (Some (WriteThrew (storePath st1)), st1))"

text \<open>The load of the canonical file in \<^verbatim>\<open>getTokens\<close>:
  \<^verbatim>\<open>if (existsSync(this.tokenFilePath)) { try { const data = readFileSync(this.tokenFilePath, "utf8"); this.currentTokens = JSON.parse(data)\<close>.
  It reads the file, never the cache, and assigns the cache only when the text parses.\<close>

datatype text_load = TAbsent | TThrew | TLoaded jsval

definition loadTokens_text :: "token_store \<Rightarrow> text_load \<times> token_store" where
  "loadTokens_text st =
     (case storeFiles st (storePath st) of
        None \<Rightarrow> (TAbsent, st)
      | Some txt \<Rightarrow>
          (case JSON_parse txt of
             None \<Rightarrow> (TThrew, st)
           | Some v \<Rightarrow> (TLoaded v, st\<lparr>storeCache := v\<rparr>)))"

text \<open>What may follow a numeral in the output of the serialiser, the values without parts, what
  a value without parts becomes when written and read again, and the text of a property.\<close>

definition ends_number :: "string \<Rightarrow> bool" where
  "ends_number rest = (rest = [] \<or> hd rest = CHR '','' \<or> is_ws (hd rest) \<or> hd rest = CHR ''}'' \<or> hd rest = CHR '']'')"

definition flat :: "jsval \<Rightarrow> bool" where
  "flat v = (case v of VNull \<Rightarrow> True | VBool _ \<Rightarrow> True | VNumber _ \<Rightarrow> True | VString _ \<Rightarrow> True | _ \<Rightarrow> False)"

definition json_image :: "jsval \<Rightarrow> jsval" where
  "json_image v = (case v of VNumber (NumInt i) \<Rightarrow> VNumber (NumInt i) | VNumber _ \<Rightarrow> VNull | _ \<Rightarrow> v)"

definition atom_text :: "jsval \<Rightarrow> string" where
  "atom_text v = (case render v 0 of Some t \<Rightarrow> t | None \<Rightarrow> [])"

definition member_text :: "string \<times> jsval \<Rightarrow> string" where
  "member_text m = quote (fst m) @ '': '' @ atom_text (snd m)"

definition defined_members :: "(string \<times> jsval) list \<Rightarrow> (string \<times> jsval) list" where
  "defined_members ms = filter (\<lambda>m. snd m \<noteq> VUndefined) ms"

text \<open>The properties that an optional field contributes to the stored object.\<close>

definition optMember :: "string \<Rightarrow> string option \<Rightarrow> (string \<times> jsval) list" where
  "optMember k s = (case s of None \<Rightarrow> [] | Some x \<Rightarrow> [(k, VString x)])"





section \<open>Properties\<close>

subsection \<open>Unfolding and evaluation\<close>

lemmas prims = log_def trace_def dateNow_def fetchToken_def fetchGraph_def promptForReauth_def
  refreshToken_catch_def saveTokens_def updateClaudeConfig_def

lemmas world_defs = idle_world_def sample_record_def provider_ok_def provider_rejects_def
  env_pair_def leaping_clock_def lists_url_def graph_wants_A2_def graph_unauthorized_def
  graph_unauthorized_mailbox_def graph_mailbox_def graph_server_error_def

lemmas eval_defs = refreshToken_fn_def prims Let_def safetyMargin_def assumedLifetime_def
  js_or_def js_or_str_def truthy_def ok_def cached_def resolvedClientId_def resolvedClientSecret_def
  resolvedTenantId_def refreshRequest_def refreshStopsBeforeSave_def world_defs
  getTokens_def getTokens_stored_def getTokens_legacy_def readTokenFile_def getAccessToken_def
  makeGraphRequest_def makeGraphRequest_try_def handleResponse_def graphOptions_def truthy_body_def

lemma resolved_refreshCalls [simp]:
  "resolvedClientId (w\<lparr>refreshCalls := x\<rparr>) = resolvedClientId w"
  "resolvedClientSecret (w\<lparr>refreshCalls := x\<rparr>) = resolvedClientSecret w"
  "resolvedTenantId (w\<lparr>refreshCalls := x\<rparr>) = resolvedTenantId w"
  "refreshRequest rt (w\<lparr>refreshCalls := x\<rparr>) = refreshRequest rt w"
  by (simp_all add: resolvedClientId_def resolvedClientSecret_def resolvedTenantId_def
        refreshRequest_def cached_def)

subsection \<open>Substrings\<close>

lemma includes_str_iff: "includes_str s pat \<longleftrightarrow> (\<exists>ps ss. s = ps @ pat @ ss)"
proof (induction s)
  case Nil
  then show ?case by auto
next
  case (Cons c cs)
  have "take (length pat) (c # cs) = pat \<longleftrightarrow> (\<exists>ss. c # cs = pat @ ss)"
    by (metis append_eq_conv_conj append_take_drop_id)
  moreover have "(\<exists>ps ss. c # cs = ps @ pat @ ss) \<longleftrightarrow>
                 (\<exists>ss. c # cs = pat @ ss) \<or> (\<exists>ps ss. cs = ps @ pat @ ss)"
  proof
    assume "\<exists>ps ss. c # cs = ps @ pat @ ss"
    then obtain ps ss where e: "c # cs = ps @ pat @ ss" by blast
    show "(\<exists>ss. c # cs = pat @ ss) \<or> (\<exists>ps ss. cs = ps @ pat @ ss)"
    proof (cases ps)
      case Nil
      with e show ?thesis by auto
    next
      case (Cons p ps')
      with e have "cs = ps' @ pat @ ss" by simp
      then show ?thesis by blast
    qed
  next
    assume "(\<exists>ss. c # cs = pat @ ss) \<or> (\<exists>ps ss. cs = ps @ pat @ ss)"
    then show "\<exists>ps ss. c # cs = ps @ pat @ ss"
    proof
      assume "\<exists>ss. c # cs = pat @ ss"
      then obtain ss where "c # cs = [] @ pat @ ss" by auto
      then show ?thesis by blast
    next
      assume "\<exists>ps ss. cs = ps @ pat @ ss"
      then obtain ps ss where "c # cs = (c # ps) @ pat @ ss" by auto
      then show ?thesis by blast
    qed
  qed
  ultimately show ?case using Cons.IH by simp
qed

subsection \<open>What a refresh leaves alone\<close>

lemma refreshToken_fn_frame:
  "env (snd (refreshToken_fn rt w)) = env w"
  "tokenFilePath (snd (refreshToken_fn rt w)) = tokenFilePath w"
  "legacyPath (snd (refreshToken_fn rt w)) = legacyPath w"
  "writable (snd (refreshToken_fn rt w)) = writable w"
  "clock (snd (refreshToken_fn rt w)) = clock w"
  "tokenEndpoint (snd (refreshToken_fn rt w)) = tokenEndpoint w"
  "graphApi (snd (refreshToken_fn rt w)) = graphApi w"
  "graphCalls (snd (refreshToken_fn rt w)) = graphCalls w"
  "refreshCalls (snd (refreshToken_fn rt w)) = refreshCalls w @ [rt]"
  by (simp_all add: refreshToken_fn_def prims Let_def
        split: prod.splits option.splits fetch_result.splits claude_config.splits)


lemma refreshToken_fn_failure_last:
  "fst (refreshToken_fn rt w) = None \<Longrightarrow>
     console (snd (refreshToken_fn rt w)) \<noteq> [] \<and>
     (last (console (snd (refreshToken_fn rt w))) = LogMissingClientCredentials \<or>
      last (console (snd (refreshToken_fn rt w))) = LogReauthPrompt (tokenFilePath w))"
  by (auto simp add: refreshToken_fn_def prims Let_def
        split: prod.splits option.splits fetch_result.splits if_splits)

lemma refreshToken_fn_fst:
  "fst (refreshToken_fn rt w) =
     (if \<not> truthy (resolvedClientId w) \<or> \<not> truthy (resolvedClientSecret w) then None
      else case tokenEndpoint w (length (tokenCalls w)) (refreshRequest rt w) of
             NetworkError \<Rightarrow> None
           | Response r \<Rightarrow>
               if \<not> ok r then None
               else (case bodyJson r of
                       None \<Rightarrow> None
                     | Some data \<Rightarrow>
                         if writable w (tokenFilePath w)
                         then Some \<lparr>accessToken = access_token data,
                                    refreshToken = js_or_str (refresh_token data) rt,
                                    expiresAt = clock w (ticks w) + expires_in data * 1000 - safetyMargin,
                                    clientId = resolvedClientId w,
                                    clientSecret = resolvedClientSecret w,
                                    tenantId = Some (resolvedTenantId w)\<rparr>
                         else None))"
  by (simp add: refreshToken_fn_def prims Let_def
        split: prod.splits option.splits fetch_result.splits claude_config.splits)

lemma refreshToken_fn_fst_cong:
  assumes "currentTokens w1 = currentTokens w2" "env w1 = env w2"
    and "tokenEndpoint w1 = tokenEndpoint w2" "length (tokenCalls w1) = length (tokenCalls w2)"
    and "writable w1 = writable w2" "tokenFilePath w1 = tokenFilePath w2"
    and "clock w1 (ticks w1) = clock w2 (ticks w2)"
  shows "fst (refreshToken_fn rt w1) = fst (refreshToken_fn rt w2)"
proof -
  have "resolvedClientId w1 = resolvedClientId w2" "resolvedClientSecret w1 = resolvedClientSecret w2"
    "resolvedTenantId w1 = resolvedTenantId w2"
    using assms(1,2)
    by (simp_all add: resolvedClientId_def resolvedClientSecret_def resolvedTenantId_def cached_def)
  moreover from this have "refreshRequest rt w1 = refreshRequest rt w2"
    by (simp add: refreshRequest_def)
  ultimately show ?thesis
    using assms(3-7) by (simp only: refreshToken_fn_fst)
qed

lemma refreshToken_fn_fsTrace:
  "fsTrace (snd (refreshToken_fn rt w)) = fsTrace w \<or>
   fsTrace (snd (refreshToken_fn rt w)) = fsTrace w @ [FsWrite (tokenFilePath w)]"
  by (simp add: refreshToken_fn_def prims Let_def
        split: prod.splits option.splits fetch_result.splits claude_config.splits)

lemma refreshToken_fn_failure_files:
  "fst (refreshToken_fn rt w) = None \<Longrightarrow> files (snd (refreshToken_fn rt w)) = files w"
  by (auto simp add: refreshToken_fn_def prims Let_def
        split: prod.splits option.splits fetch_result.splits if_splits)

lemma refreshToken_fn_failure_cache:
  "fst (refreshToken_fn rt w) = None \<Longrightarrow> writable w (tokenFilePath w) \<Longrightarrow>
     currentTokens (snd (refreshToken_fn rt w)) = currentTokens w"
  by (auto simp add: refreshToken_fn_def prims Let_def
        split: prod.splits option.splits fetch_result.splits if_splits)



text \<open>A refresh fails either before the save or at the write, and a refresh that stops
  before the save changes neither the cache nor any file.\<close>

lemma refreshToken_fn_fails_iff:
  "fst (refreshToken_fn rt w) = None \<longleftrightarrow>
     refreshStopsBeforeSave rt w \<or> \<not> writable w (tokenFilePath w)"
  by (auto simp add: refreshToken_fn_fst refreshStopsBeforeSave_def
        split: fetch_result.splits option.splits)

lemma refreshToken_fn_stops:
  assumes "refreshStopsBeforeSave rt w"
  shows "fst (refreshToken_fn rt w) = None"
    and "currentTokens (snd (refreshToken_fn rt w)) = currentTokens w"
    and "files (snd (refreshToken_fn rt w)) = files w"
proof -
  show f: "fst (refreshToken_fn rt w) = None"
    using assms by (simp add: refreshToken_fn_fails_iff)
  show "files (snd (refreshToken_fn rt w)) = files w"
    using f by (rule refreshToken_fn_failure_files)
  show "currentTokens (snd (refreshToken_fn rt w)) = currentTokens w"
    using assms
    by (auto simp add: refreshToken_fn_def refreshStopsBeforeSave_def log_def fetchToken_def
          promptForReauth_def refreshToken_catch_def Let_def
          split: fetch_result.splits option.splits)
qed

subsection \<open>The steps of getTokens\<close>

lemma getTokens_no_env:
  "\<not> (truthy (env w ''MS_TODO_ACCESS_TOKEN'') \<and> truthy (env w ''MS_TODO_REFRESH_TOKEN'')) \<Longrightarrow>
     getTokens w = getTokens_stored w"
  unfolding getTokens_def by (rule if_not_P)

lemma readTokenFile_Json:
  "files w p = Some (Json v) \<Longrightarrow>
     readTokenFile p w = (Loaded v, w\<lparr>fsTrace := fsTrace w @ [FsExists p, FsRead p]\<rparr>)"
  by (simp add: readTokenFile_def trace_def)

lemma readTokenFile_None:
  "files w p = None \<Longrightarrow> readTokenFile p w = (Absent, w\<lparr>fsTrace := fsTrace w @ [FsExists p]\<rparr>)"
  by (simp add: readTokenFile_def trace_def)

lemma getTokens_stored_unexpired:
  assumes "files w (tokenFilePath w) = Some (Json (Some t))"
    and "clock w (ticks w) \<le> expiresAt t"
  shows "getTokens_stored w =
           (Some t, w\<lparr>fsTrace := fsTrace w @ [FsExists (tokenFilePath w), FsRead (tokenFilePath w)],
                      currentTokens := Some t, ticks := Suc (ticks w)\<rparr>)"
  using assms by (simp add: getTokens_stored_def readTokenFile_Json dateNow_def)

lemma getTokens_env_unexpired:
  assumes "env w ''MS_TODO_ACCESS_TOKEN'' = Some a" "a \<noteq> []"
    and "env w ''MS_TODO_REFRESH_TOKEN'' = Some r" "r \<noteq> []"
    and "\<not> clock w (Suc (ticks w)) > clock w (ticks w) + assumedLifetime"
  shows "getTokens w =
           (Some \<lparr>accessToken = a, refreshToken = r,
                  expiresAt = clock w (ticks w) + assumedLifetime,
                  clientId = None, clientSecret = None, tenantId = None\<rparr>,
            w\<lparr>ticks := Suc (Suc (ticks w))\<rparr>)"
  using assms by (simp add: getTokens_def truthy_def dateNow_def js_or_str_def)

lemma getTokens_env_expired:
  assumes "env w ''MS_TODO_ACCESS_TOKEN'' = Some a" "a \<noteq> []"
    and "env w ''MS_TODO_REFRESH_TOKEN'' = Some r" "r \<noteq> []"
    and "clock w (Suc (ticks w)) > clock w (ticks w) + assumedLifetime"
  shows "fst (getTokens w) =
           (case fst (refreshToken_fn r (w\<lparr>ticks := Suc (Suc (ticks w))\<rparr>)) of
              Some refreshed \<Rightarrow> Some refreshed
            | None \<Rightarrow> Some \<lparr>accessToken = a, refreshToken = r,
                             expiresAt = clock w (ticks w) + assumedLifetime,
                             clientId = None, clientSecret = None, tenantId = None\<rparr>)"
    and "snd (getTokens w) = snd (refreshToken_fn r (w\<lparr>ticks := Suc (Suc (ticks w))\<rparr>))"
  using assms
  by (simp_all add: getTokens_def truthy_def dateNow_def js_or_str_def
        split: prod.splits option.splits)

lemma getTokens_stored_expired_parts:
  assumes "files w (tokenFilePath w) = Some (Json (Some t))"
    and "clock w (ticks w) > expiresAt t"
  shows "fst (getTokens_stored w) =
           (case fst (refreshToken_fn (refreshToken t)
                   (w\<lparr>fsTrace := fsTrace w @ [FsExists (tokenFilePath w), FsRead (tokenFilePath w)],
                      currentTokens := Some t, ticks := Suc (ticks w)\<rparr>)) of
              Some refreshed \<Rightarrow> Some refreshed
            | None \<Rightarrow> currentTokens (snd (refreshToken_fn (refreshToken t)
                   (w\<lparr>fsTrace := fsTrace w @ [FsExists (tokenFilePath w), FsRead (tokenFilePath w)],
                      currentTokens := Some t, ticks := Suc (ticks w)\<rparr>))))"
    and "snd (getTokens_stored w) = snd (refreshToken_fn (refreshToken t)
                   (w\<lparr>fsTrace := fsTrace w @ [FsExists (tokenFilePath w), FsRead (tokenFilePath w)],
                      currentTokens := Some t, ticks := Suc (ticks w)\<rparr>))"
  using assms
  by (simp_all add: getTokens_stored_def readTokenFile_Json dateNow_def
        split: prod.splits option.splits)

lemma getTokens_legacy_Json:
  assumes "files w (legacyPath w) = Some (Json v)" and "writable w (tokenFilePath w)"
  shows "getTokens_legacy w =
           (v, w\<lparr>fsTrace := fsTrace w @ [FsExists (legacyPath w), FsRead (legacyPath w),
                                         FsWrite (tokenFilePath w)],
                  currentTokens := v,
                  files := (files w)(tokenFilePath w \<mapsto> Json v)\<rparr>)"
  using assms by (simp add: getTokens_legacy_def readTokenFile_Json saveTokens_def trace_def Let_def)

lemma getTokens_legacy_unwritable:
  assumes "files w (legacyPath w) = Some (Json v)" and "\<not> writable w (tokenFilePath w)"
  shows "getTokens_legacy w =
           (None, w\<lparr>fsTrace := fsTrace w @ [FsExists (legacyPath w), FsRead (legacyPath w),
                                            FsWrite (tokenFilePath w)],
                     currentTokens := v,
                     console := console w @ [LogErrorReadingLegacyTokenFile]\<rparr>)"
  using assms
  by (simp add: getTokens_legacy_def readTokenFile_Json saveTokens_def trace_def log_def Let_def)

lemma getTokens_legacy_only:
  assumes "\<not> (truthy (env w ''MS_TODO_ACCESS_TOKEN'') \<and> truthy (env w ''MS_TODO_REFRESH_TOKEN''))"
    and "files w (tokenFilePath w) = None"
  shows "getTokens w = getTokens_legacy (w\<lparr>fsTrace := fsTrace w @ [FsExists (tokenFilePath w)]\<rparr>)"
  by (simp add: getTokens_no_env [OF assms(1)] getTokens_stored_def readTokenFile_None assms(2))

subsection \<open>Refreshing\<close>

text \<open>
  C3. The provider answers a refresh with \<^verbatim>\<open>{access_token: "A2", expires_in: 3600}\<close> and no
  \<^verbatim>\<open>refresh_token\<close>; the refresh was started with the refresh token \<^verbatim>\<open>"R1"\<close>. Then the
  resulting record, which \<^verbatim>\<open>refreshToken\<close> puts into the cache, has access token \<^verbatim>\<open>"A2"\<close>,
  keeps the refresh token \<^verbatim>\<open>"R1"\<close>, and expires 3300000 ms after the reading that
  \<^verbatim>\<open>Date.now()\<close> gives during the refresh (3600 s less the margin of 300 s). When the
  token file can be written, this record is also what is stored and returned.
  The hypotheses say that the answer is reached: client credentials resolve, and the
  response is a success carrying that body.
\<close>

theorem refresh_keeps_previous_refresh_token:
  assumes "truthy (resolvedClientId w)" and "truthy (resolvedClientSecret w)"
    and "tokenEndpoint w (length (tokenCalls w)) (refreshRequest ''R1'' w) = Response r"
    and "ok r"
    and "bodyJson r = Some \<lparr>access_token = ''A2'', refresh_token = None, expires_in = 3600\<rparr>"
  shows "\<exists>t. accessToken t = ''A2'' \<and> refreshToken t = ''R1'' \<and>
             expiresAt t = clock w (ticks w) + 3300000 \<and>
             currentTokens (snd (refreshToken_fn ''R1'' w)) = Some t \<and>
             (writable w (tokenFilePath w) \<longrightarrow>
                fst (refreshToken_fn ''R1'' w) = Some t \<and>
                files (snd (refreshToken_fn ''R1'' w)) (tokenFilePath w) = Some (Json (Some t)))"
  using assms
  by (simp add: refreshToken_fn_def prims Let_def safetyMargin_def js_or_str_def
        split: prod.splits option.splits fetch_result.splits claude_config.splits)

theorem refresh_keeps_previous_refresh_token_witness:
  "fst (refreshToken_fn ''R1'' (idle_world\<lparr>currentTokens := Some sample_record, tokenEndpoint := provider_ok\<rparr>)) =
     Some \<lparr>accessToken = ''A2'', refreshToken = ''R1'', expiresAt = 1700003900000,
           clientId = Some ''app'', clientSecret = Some ''secret'', tenantId = Some ''organizations''\<rparr> \<and>
   currentTokens (snd (refreshToken_fn ''R1''
       (idle_world\<lparr>currentTokens := Some sample_record, tokenEndpoint := provider_ok\<rparr>))) =
     Some \<lparr>accessToken = ''A2'', refreshToken = ''R1'', expiresAt = 1700003900000,
           clientId = Some ''app'', clientSecret = Some ''secret'', tenantId = Some ''organizations''\<rparr>"
  using refresh_keeps_previous_refresh_token
    [of "idle_world\<lparr>currentTokens := Some sample_record, tokenEndpoint := provider_ok\<rparr>"
        "\<lparr>status = 200, bodyText = [],
          bodyJson = Some \<lparr>access_token = ''A2'', refresh_token = None, expires_in = 3600\<rparr>\<rparr>"]
  by (simp add: eval_defs)

text \<open>
  C8. \<^verbatim>\<open>refreshToken\<close> returns to its caller in every case; the model's function is total
  and each exception raised inside ends in \<open>refreshToken_catch\<close>. In particular:
  when the client id or the client secret resolves neither from the cached record nor
  from the environment, it logs that, makes no request and returns \<^verbatim>\<open>null\<close>;
  when the token endpoint answers with a status that is not a success, it logs the
  body, prints the re-authentication prompt, which names the token file's path, and
  returns \<^verbatim>\<open>null\<close>; and whenever it returns \<^verbatim>\<open>null\<close>, the last thing printed is one of
  these two messages.
\<close>

theorem refreshToken_never_throws:
  "(\<not> truthy (resolvedClientId w) \<or> \<not> truthy (resolvedClientSecret w) \<longrightarrow>
      fst (refreshToken_fn rt w) = None \<and>
      tokenCalls (snd (refreshToken_fn rt w)) = tokenCalls w \<and>
      console (snd (refreshToken_fn rt w)) = console w @ [LogMissingClientCredentials]) \<and>
   (truthy (resolvedClientId w) \<and> truthy (resolvedClientSecret w) \<and>
    tokenEndpoint w (length (tokenCalls w)) (refreshRequest rt w) = Response r \<and> \<not> ok r \<longrightarrow>
      fst (refreshToken_fn rt w) = None \<and>
      console (snd (refreshToken_fn rt w)) =
        console w @ [LogTokenRefreshFailed (bodyText r), LogReauthPrompt (tokenFilePath w)]) \<and>
   (fst (refreshToken_fn rt w) = None \<longrightarrow>
      console (snd (refreshToken_fn rt w)) \<noteq> [] \<and>
      (last (console (snd (refreshToken_fn rt w))) = LogMissingClientCredentials \<or>
       last (console (snd (refreshToken_fn rt w))) = LogReauthPrompt (tokenFilePath w)))"
  using refreshToken_fn_failure_last [of rt w]
  by (simp add: refreshToken_fn_def prims Let_def
        split: prod.splits option.splits fetch_result.splits claude_config.splits)

theorem refreshToken_never_throws_witness:
  "\<not> truthy (resolvedClientId idle_world) \<and>
   refreshToken_fn ''R1'' idle_world =
     (None, idle_world\<lparr>refreshCalls := [''R1''], console := [LogMissingClientCredentials]\<rparr>) \<and>
   truthy (resolvedClientId (idle_world\<lparr>currentTokens := Some sample_record, tokenEndpoint := provider_rejects\<rparr>)) \<and>
   truthy (resolvedClientSecret (idle_world\<lparr>currentTokens := Some sample_record, tokenEndpoint := provider_rejects\<rparr>)) \<and>
   fst (refreshToken_fn ''R1'' (idle_world\<lparr>currentTokens := Some sample_record, tokenEndpoint := provider_rejects\<rparr>)) = None \<and>
   console (snd (refreshToken_fn ''R1'' (idle_world\<lparr>currentTokens := Some sample_record, tokenEndpoint := provider_rejects\<rparr>))) =
     [LogTokenRefreshFailed ''invalid_grant'', LogReauthPrompt ''/cfg/tokens.json'']"
  using refreshToken_never_throws [of idle_world "''R1''"]
    refreshToken_never_throws
      [of "idle_world\<lparr>currentTokens := Some sample_record, tokenEndpoint := provider_rejects\<rparr>" "''R1''"
          "\<lparr>status = 400, bodyText = ''invalid_grant'', bodyJson = None\<rparr>"]
  by (simp add: eval_defs)

subsection \<open>Storing and loading\<close>

text \<open>String literals: reading what \<open>quote\<close> wrote gives the string back.\<close>

lemma hex_val_hex_digit: "n < 16 \<Longrightarrow> hex_val (hex_digit n) = Some n"
  by (simp add: hex_val_def hex_digit_def Let_def)

lemma hex4_byte:
  "n < 256 \<Longrightarrow> hex4 (CHR ''0'') (CHR ''0'') (hex_digit (n div 16)) (hex_digit (n mod 16)) = Some n"
proof -
  assume "n < 256"
  then have "n div 16 < 16" "n mod 16 < 16" by simp_all
  then have "hex_val (hex_digit (n div 16)) = Some (n div 16)"
    "hex_val (hex_digit (n mod 16)) = Some (n mod 16)"
    by (simp_all add: hex_val_hex_digit)
  moreover have "hex_val (CHR ''0'') = Some 0" by (simp add: hex_val_def)
  ultimately show ?thesis by (simp add: hex4_def)
qed

lemma of_char_less_256: "(of_char c :: nat) < 256"
  by (metis of_char_mod_256 mod_less_divisor zero_less_numeral)

lemma parse_chars_escape_char:
  "parse_chars (escape_char c @ rest) = cons_fst c (parse_chars rest)"
proof -
  have byte: "hex4 (CHR ''0'') (CHR ''0'') (hex_digit (of_char c div 16)) (hex_digit (of_char c mod 16))
              = Some (of_char c)"
    by (rule hex4_byte) (rule of_char_less_256)
  show ?thesis
    by (simp add: escape_char_def unescape_def dquote_def backslash_def byte of_char_less_256)
qed

lemma parse_chars_escaped:
  "parse_chars (concat (map escape_char s) @ dquote # rest) = Some (s, rest)"
  by (induction s) (simp_all add: parse_chars_escape_char cons_fst_def)

lemma parse_chars_quote:
  "parse_chars (tl (quote s) @ rest) = Some (s, rest)"
  by (simp add: quote_def parse_chars_escaped)

lemma is_digit_digit_char: "n < 10 \<Longrightarrow> is_digit (digit_char n)"
  by (simp add: is_digit_def digit_char_def)

lemma digit_char_value: "n < 10 \<Longrightarrow> (of_char (digit_char n) :: nat) - 48 = n"
  by (simp add: digit_char_def)

lemma digit_char_zero_iff: "n < 10 \<Longrightarrow> digit_char n = CHR ''0'' \<longleftrightarrow> n = 0"
proof
  assume "n < 10" "digit_char n = CHR ''0''"
  then have "(of_char (digit_char n) :: nat) = of_char (CHR ''0'')" by simp
  with \<open>n < 10\<close> show "n = 0" by (simp add: digit_char_def)
next
  have "char_of (48::nat) = CHR ''0''" by code_simp
  moreover assume "n = 0"
  ultimately show "digit_char n = CHR ''0''" by (simp add: digit_char_def)
qed

lemma show_nat_digits: "\<forall>c \<in> set (show_nat n). is_digit c"
proof (induction n rule: show_nat.induct)
  case (1 n)
  show ?case
  proof (cases "n < 10")
    case True
    then show ?thesis by (simp add: show_nat.simps [of n] is_digit_digit_char)
  next
    case False
    with 1 show ?thesis by (simp add: show_nat.simps [of n] is_digit_digit_char)
  qed
qed

lemma show_nat_nonempty: "show_nat n \<noteq> []"
  by (simp add: show_nat.simps [of n])

lemma digits_value_snoc: "digits_value (ds @ [c]) = 10 * digits_value ds + (of_char c - 48)"
  by (simp add: digits_value_def)

lemma digits_value_show_nat: "digits_value (show_nat n) = n"
proof (induction n rule: show_nat.induct)
  case (1 n)
  show ?case
  proof (cases "n < 10")
    case True
    then show ?thesis by (simp add: show_nat.simps [of n] digits_value_def digit_char_value)
  next
    case False
    with 1 have "digits_value (show_nat (n div 10)) = n div 10" by simp
    with False show ?thesis
      by (simp add: show_nat.simps [of n] digits_value_snoc digit_char_value)
  qed
qed

lemma hd_show_nat: "hd (show_nat n) = CHR ''0'' \<Longrightarrow> n = 0"
proof (induction n rule: show_nat.induct)
  case (1 n)
  show ?case
  proof (cases "n < 10")
    case True
    with "1.prems" show ?thesis by (simp add: show_nat.simps [of n] digit_char_zero_iff)
  next
    case False
    with "1.prems" have "hd (show_nat (n div 10)) = CHR ''0''"
      by (simp add: show_nat.simps [of n] show_nat_nonempty)
    with False 1 have "n div 10 = 0" by simp
    with False show ?thesis by simp
  qed
qed

lemma show_nat_no_leading_zero: "\<not> (length (show_nat n) > 1 \<and> hd (show_nat n) = CHR ''0'')"
proof
  assume a: "length (show_nat n) > 1 \<and> hd (show_nat n) = CHR ''0''"
  then have "n = 0" by (simp add: hd_show_nat)
  with a show False by (simp add: show_nat.simps [of 0])
qed

lemma ends_number_not_digit:
  "ends_number rest \<Longrightarrow> rest = [] \<or> \<not> is_digit (hd rest)"
  by (auto simp add: ends_number_def is_digit_def is_ws_def)

lemma ends_number_not_frac:
  "ends_number rest \<Longrightarrow> \<not> (rest \<noteq> [] \<and> (hd rest = CHR ''.'' \<or> hd rest = CHR ''e'' \<or> hd rest = CHR ''E''))"
  by (auto simp add: ends_number_def is_ws_def)

lemma takeWhile_digits:
  assumes "\<forall>c \<in> set ds. is_digit c" and "rest = [] \<or> \<not> is_digit (hd rest)"
  shows "takeWhile is_digit (ds @ rest) = ds" and "dropWhile is_digit (ds @ rest) = rest"
proof -
  have r: "takeWhile is_digit rest = []" "dropWhile is_digit rest = rest"
    using assms(2) by (cases rest; simp)+
  show "takeWhile is_digit (ds @ rest) = ds" using assms(1) r by (simp add: takeWhile_append2)
  show "dropWhile is_digit (ds @ rest) = rest" using assms(1) r by (simp add: dropWhile_append2)
qed

lemma hd_show_nat_not_minus: "hd (show_nat n) \<noteq> CHR ''-''"
proof -
  have "hd (show_nat n) \<in> set (show_nat n)" by (simp add: show_nat_nonempty)
  with show_nat_digits [of n] have "is_digit (hd (show_nat n))" by blast
  then show ?thesis by (auto simp add: is_digit_def)
qed

lemma parse_number_show_nat:
  assumes "ends_number rest"
  shows "parse_number (show_nat n @ rest) = Some (VNumber (NumInt (int n)), rest)"
proof -
  note tw = takeWhile_digits [OF show_nat_digits ends_number_not_digit [OF assms], of n]
  have "hd (show_nat n @ rest) \<noteq> CHR ''-''"
    by (simp add: show_nat_nonempty hd_show_nat_not_minus)
  then show ?thesis
    using show_nat_no_leading_zero [of n] ends_number_not_frac [OF assms]
    by (simp add: parse_number_def Let_def tw show_nat_nonempty digits_value_show_nat)
qed

lemma parse_number_show_int:
  assumes "ends_number rest"
  shows "parse_number (show_int i @ rest) = Some (VNumber (NumInt i), rest)"
proof (cases "i < 0")
  case False
  then show ?thesis
    by (simp add: show_int_def parse_number_show_nat [OF assms])
next
  case True
  note tw = takeWhile_digits [OF show_nat_digits ends_number_not_digit [OF assms], of "nat (- i)"]
  from True show ?thesis
    using show_nat_no_leading_zero [of "nat (- i)"] ends_number_not_frac [OF assms]
    by (simp add: show_int_def parse_number_def Let_def tw show_nat_nonempty digits_value_show_nat)
qed

lemma hd_show_int: "hd (show_int i) = CHR ''-'' \<or> is_digit (hd (show_int i))"
proof (cases "i < 0")
  case True then show ?thesis by (simp add: show_int_def)
next
  case False
  have "hd (show_nat (nat i)) \<in> set (show_nat (nat i))" by (simp add: show_nat_nonempty)
  with show_nat_digits [of "nat i"] False show ?thesis by (auto simp add: show_int_def)
qed

lemma show_int_nonempty: "show_int i \<noteq> []"
  by (simp add: show_int_def show_nat_nonempty)

lemma skip_ws_append: "\<forall>c \<in> set ws. is_ws c \<Longrightarrow> skip_ws (ws @ s) = skip_ws s"
  by (induction ws) simp_all

lemma skip_ws_newline_indent: "skip_ws (newline_indent d @ s) = skip_ws s"
  by (rule skip_ws_append) (simp add: newline_indent_def is_ws_def)

lemma skip_ws_id: "s = [] \<or> \<not> is_ws (hd s) \<Longrightarrow> skip_ws s = s"
  by (cases s) auto

lemma parse_value_skip: "parse_value n s = parse_value n (skip_ws s)"
proof (cases n)
  case 0 then show ?thesis by simp
next
  case (Suc m)
  have "skip_ws (skip_ws s) = skip_ws s" by (induction s) simp_all
  then show ?thesis by (simp add: Suc)
qed

lemma parse_members_skip: "parse_members n s = parse_members n (skip_ws s)"
proof (cases n)
  case 0 then show ?thesis by simp
next
  case (Suc m)
  have "skip_ws (skip_ws s) = skip_ws s" by (induction s) simp_all
  then show ?thesis by (simp add: Suc)
qed

lemma parse_value_number:
  assumes "s \<noteq> []" and "hd s = CHR ''-'' \<or> is_digit (hd s)"
  shows "parse_value (Suc n) s = parse_number s"
proof -
  obtain c cs where s: "s = c # cs" using assms(1) by (cases s) auto
  with assms(2) have c: "c = CHR ''-'' \<or> is_digit c" by simp
  then have "\<not> is_ws c" "c \<noteq> CHR ''{''" "c \<noteq> CHR ''[''" "c \<noteq> dquote"
    by (auto simp add: is_ws_def is_digit_def dquote_def)
  with c show ?thesis by (simp add: s)
qed

lemma parse_value_string:
  "parse_value (Suc n) (quote s @ rest) = Some (VString s, rest)"
proof -
  have q: "quote s @ rest = dquote # (tl (quote s) @ rest)" by (simp add: quote_def)
  have "\<not> is_ws dquote" "dquote \<noteq> CHR ''{''" "dquote \<noteq> CHR ''[''"
    by (simp_all add: is_ws_def dquote_def)
  then show ?thesis
    unfolding q by (simp add: parse_chars_quote)
qed

lemma parse_value_null:
  "parse_value (Suc n) (CHR ''n'' # CHR ''u'' # CHR ''l'' # CHR ''l'' # rest) = Some (VNull, rest)"
  by (simp add: is_ws_def dquote_def is_digit_def strip_prefix_def)

lemma parse_value_true:
  "parse_value (Suc n) (CHR ''t'' # CHR ''r'' # CHR ''u'' # CHR ''e'' # rest) = Some (VBool True, rest)"
  by (simp add: is_ws_def dquote_def is_digit_def strip_prefix_def)

lemma parse_value_false:
  "parse_value (Suc n) (CHR ''f'' # CHR ''a'' # CHR ''l'' # CHR ''s'' # CHR ''e'' # rest) = Some (VBool False, rest)"
  by (simp add: is_ws_def dquote_def is_digit_def strip_prefix_def)

lemma parse_value_atom:
  assumes "flat v" and "ends_number rest"
  shows "parse_value (Suc n) (atom_text v @ rest) = Some (json_image v, rest)"
proof (cases v)
  case (VNumber x)
  show ?thesis
  proof (cases x)
    case (NumInt i)
    have "parse_value (Suc n) (show_int i @ rest) = parse_number (show_int i @ rest)"
      using hd_show_int [of i] by (intro parse_value_number) (simp_all add: show_int_nonempty)
    then show ?thesis
      by (simp add: VNumber NumInt atom_text_def json_image_def render_number_def
            parse_number_show_int [OF assms(2)])
  qed (simp_all add: VNumber atom_text_def json_image_def render_number_def parse_value_null
         del: parse_value.simps)
next
  case (VString s)
  then show ?thesis by (simp add: atom_text_def json_image_def parse_value_string del: parse_value.simps)
next
  case VNull
  then show ?thesis by (simp add: atom_text_def json_image_def parse_value_null del: parse_value.simps)
next
  case (VBool b)
  then show ?thesis
    using parse_value_true [of n rest] parse_value_false [of n rest]
    by (cases b) (simp_all add: atom_text_def json_image_def del: parse_value.simps)
qed (use assms(1) in \<open>simp_all add: flat_def\<close>)

lemma ends_number_newline_indent: "ends_number (newline_indent d @ s)"
  by (simp add: ends_number_def newline_indent_def is_ws_def)

lemma ends_number_comma: "ends_number (CHR '','' # s)"
  by (simp add: ends_number_def)

lemma parse_member:
  assumes "flat (snd m)" and "ends_number rest"
  shows "parse_members (Suc (Suc n)) (member_text m @ rest) =
           (case skip_ws rest of
              [] \<Rightarrow> None
            | c # cs \<Rightarrow>
                if c = CHR '','' then cons_fst (fst m, json_image (snd m)) (parse_members (Suc n) cs)
                else if c = CHR ''}'' then Some ([(fst m, json_image (snd m))], cs)
                else None)"
proof -
  let ?k = "fst m" and ?v = "snd m"
  have t: "member_text m @ rest = dquote # (tl (quote ?k) @ CHR '':'' # CHR '' '' # atom_text ?v @ rest)"
    by (simp add: member_text_def quote_def)
  have nw: "\<not> is_ws dquote" "\<not> is_ws (CHR '':'')" "is_ws (CHR '' '')"
    by (simp_all add: is_ws_def dquote_def)
  have v: "parse_value (Suc n) (CHR '' '' # atom_text ?v @ rest) = Some (json_image ?v, rest)"
    using parse_value_skip [of "Suc n" "CHR '' '' # atom_text ?v @ rest"]
      parse_value_skip [of "Suc n" "atom_text ?v @ rest"]
      parse_value_atom [OF assms, of n] nw(3)
    by (simp del: parse_value.simps)
  show ?thesis
    unfolding t
    by (simp add: nw parse_chars_quote v del: parse_value.simps)
qed

lemma parse_members_join:
  assumes "ps \<noteq> []" and "\<forall>m \<in> set ps. flat (snd m)" and "length ps < n"
  shows "parse_members (Suc n)
           (join (CHR '','' # newline_indent (Suc d)) (map member_text ps) @ newline_indent d @ CHR ''}'' # rest) =
         Some (map (\<lambda>m. (fst m, json_image (snd m))) ps, rest)"
  using assms
proof (induction ps arbitrary: n)
  case Nil
  then show ?case by simp
next
  case (Cons p ps)
  from Cons.prems(3) obtain n' where n: "n = Suc n'" by (cases n) auto
  have fp: "flat (snd p)" using Cons.prems(2) by simp
  show ?case
  proof (cases ps)
    case Nil
    have "\<not> is_ws (CHR ''}'')" by (simp add: is_ws_def)
    then have "skip_ws (newline_indent d @ CHR ''}'' # rest) = CHR ''}'' # rest"
      by (simp add: skip_ws_newline_indent)
    then show ?thesis
      using parse_member [OF fp ends_number_newline_indent, of n' d "CHR ''}'' # rest"]
      by (simp add: Nil n del: parse_members.simps)
  next
    case (Cons q qs)
    let ?tail = "join (CHR '','' # newline_indent (Suc d)) (map member_text ps) @ newline_indent d @ CHR ''}'' # rest"
    have ih: "parse_members (Suc n') ?tail = Some (map (\<lambda>m. (fst m, json_image (snd m))) ps, rest)"
      using Cons.IH [of n'] Cons.prems n Cons by simp
    have sk: "parse_members (Suc n') (newline_indent (Suc d) @ ?tail) = parse_members (Suc n') ?tail"
      using parse_members_skip [of "Suc n'" "newline_indent (Suc d) @ ?tail"]
        parse_members_skip [of "Suc n'" ?tail]
      by (simp add: skip_ws_newline_indent del: parse_members.simps)
    have j: "join (CHR '','' # newline_indent (Suc d)) (member_text p # map member_text ps) =
             member_text p @ CHR '','' # newline_indent (Suc d) @
             join (CHR '','' # newline_indent (Suc d)) (map member_text ps)"
      by (simp add: Cons)
    have "\<not> is_ws (CHR '','')" by (simp add: is_ws_def)
    then show ?thesis
      using parse_member [OF fp ends_number_comma, of n' "newline_indent (Suc d) @ ?tail"]
      by (simp add: j n sk ih cons_fst_def del: parse_members.simps)
  qed
qed

lemma render_flat: "flat v \<Longrightarrow> render v d = Some (atom_text v)"
  by (cases v) (simp_all add: flat_def atom_text_def)

lemma render_members_flat:
  assumes "\<forall>m \<in> set ms. snd m = VUndefined \<or> flat (snd m)"
  shows "render_members (map (map_prod id (\<lambda>v. render v d)) ms) = map member_text (defined_members ms)"
  using assms
proof (induction ms)
  case Nil
  then show ?case by (simp add: render_members_def defined_members_def)
next
  case (Cons m ms)
  have ih: "render_members (map (map_prod id (\<lambda>v. render v d)) ms) = map member_text (defined_members ms)"
    using Cons.prems by (intro Cons.IH) simp
  obtain k v where m: "m = (k, v)" by (cases m)
  have step: "render_members (map (map_prod id (\<lambda>v. render v d)) (m # ms)) =
                (case render v d of None \<Rightarrow> [] | Some t \<Rightarrow> [quote k @ '': '' @ t]) @
                render_members (map (map_prod id (\<lambda>v. render v d)) ms)"
    by (cases "render v d") (simp_all add: m render_members_def)
  from Cons.prems m have "v = VUndefined \<or> flat v" by simp
  then show ?case
  proof
    assume "v = VUndefined"
    then show ?thesis
      unfolding step ih by (simp add: m defined_members_def)
  next
    assume f: "flat v"
    then have "v \<noteq> VUndefined" by (auto simp add: flat_def)
    with f show ?thesis
      unfolding step ih by (simp add: m defined_members_def render_flat member_text_def)
  qed
qed

lemma member_text_nonempty: "member_text m \<noteq> []"
  by (simp add: member_text_def quote_def)

lemma length_join: "\<forall>x \<in> set xs. x \<noteq> [] \<Longrightarrow> length xs \<le> length (join sep xs)"
proof (induction sep xs rule: join.induct)
  case (1 sep) then show ?case by simp
next
  case (2 sep x)
  then have "x \<noteq> []" by simp
  then show ?case by (cases x) simp_all
next
  case (3 sep x y ys)
  then have "x \<noteq> []" "length (y # ys) \<le> length (join sep (y # ys))" by simp_all
  then show ?case by (cases x) simp_all
qed

lemma hd_join_members:
  "ps \<noteq> [] \<Longrightarrow> join sep (map member_text ps) @ s = dquote # tl (join sep (map member_text ps) @ s)"
proof (cases ps)
  case Nil
  assume "ps \<noteq> []" with Nil show ?thesis by simp
next
  case (Cons p qs)
  then show ?thesis by (cases qs) (simp_all add: member_text_def quote_def)
qed

lemma parse_value_object:
  assumes "ps \<noteq> []" and "\<forall>m \<in> set ps. flat (snd m)" and "length ps < n"
  shows "parse_value (Suc (Suc n))
           (CHR ''{'' # newline_indent (Suc d) @
              join (CHR '','' # newline_indent (Suc d)) (map member_text ps) @
              newline_indent d @ CHR ''}'' # rest) =
         Some (VObject (map (\<lambda>m. (fst m, json_image (snd m))) ps), rest)"
proof -
  let ?J = "join (CHR '','' # newline_indent (Suc d)) (map member_text ps) @ newline_indent d @ CHR ''}'' # rest"
  have hd: "?J = dquote # tl ?J" by (rule hd_join_members [OF assms(1)])
  have nw: "\<not> is_ws (CHR ''{'')" "\<not> is_ws dquote" "dquote \<noteq> CHR ''}''"
    by (simp_all add: is_ws_def dquote_def)
  have sk: "skip_ws (newline_indent (Suc d) @ ?J) = dquote # tl ?J"
    using hd nw(2) by (metis skip_ws_newline_indent skip_ws.simps(2))
  have pm: "parse_members (Suc n) (dquote # tl ?J) =
              Some (map (\<lambda>m. (fst m, json_image (snd m))) ps, rest)"
    using parse_members_join [OF assms, of d rest] hd by simp
  show ?thesis
    using nw sk pm by (simp del: parse_members.simps)
qed

lemma JSON_roundtrip_flat_object:
  assumes "\<forall>m \<in> set ms. snd m = VUndefined \<or> flat (snd m)"
  shows "\<exists>txt. JSON_stringify (VObject ms) = Some txt \<and>
               JSON_parse txt = Some (VObject (map (\<lambda>m. (fst m, json_image (snd m))) (defined_members ms)))"
proof -
  let ?ps = "defined_members ms"
  let ?txt = "render_object 0 (map (map_prod id (\<lambda>v. render v (Suc 0))) ms)"
  have s: "JSON_stringify (VObject ms) = Some ?txt" by (simp add: JSON_stringify_def)
  have rm: "render_members (map (map_prod id (\<lambda>v. render v (Suc 0))) ms) = map member_text ?ps"
    by (rule render_members_flat [OF assms])
  have fl: "\<forall>m \<in> set ?ps. flat (snd m)"
    using assms by (auto simp add: defined_members_def)
  have "JSON_parse ?txt = Some (VObject (map (\<lambda>m. (fst m, json_image (snd m))) ?ps))"
  proof (cases "?ps = []")
    case True
    then have "?txt = ''{}''" by (simp add: render_object_def rm)
    then show ?thesis
      using True by (simp add: JSON_parse_def is_ws_def)
  next
    case False
    let ?J = "join (CHR '','' # newline_indent (Suc 0)) (map member_text ?ps)"
    have t: "?txt = CHR ''{'' # newline_indent (Suc 0) @ ?J @ newline_indent 0 @ CHR ''}'' # []"
      using False by (simp add: render_object_def rm)
    have "length ?ps \<le> length ?J"
      by (rule order_trans [OF _ length_join]) (simp_all add: member_text_nonempty)
    then have len: "length ?txt = Suc (Suc (length ?J + 4))" and lt: "length ?ps < length ?J + 4"
      by (simp_all add: t newline_indent_def)
    have "parse_value (Suc (length ?txt)) ?txt =
            Some (VObject (map (\<lambda>m. (fst m, json_image (snd m))) ?ps), [])"
      unfolding len unfolding t
      using parse_value_object [OF False fl, of "Suc (length ?J + 4)" 0 "[]"] lt
      by simp
    then show ?thesis by (simp add: JSON_parse_def)
  qed
  with s show ?thesis by blast
qed

lemma JSON_stringify_object:
  "JSON_stringify (VObject ms) = Some (render_object 0 (map (map_prod id (\<lambda>v. render v (Suc 0))) ms))"
  by (simp add: JSON_stringify_def)

lemma JSON_parse_stringified:
  assumes "\<forall>m \<in> set ms. snd m = VUndefined \<or> flat (snd m)"
  shows "JSON_parse (render_object 0 (map (map_prod id (\<lambda>v. render v (Suc 0))) ms)) =
         Some (VObject (map (\<lambda>m. (fst m, json_image (snd m))) (defined_members ms)))"
  using JSON_roundtrip_flat_object [OF assms] by (simp add: JSON_stringify_object)

lemma saveTokens_text_object:
  "saveTokens_text (VObject ms) st =
     (if storeWritable st (storePath st)
      then (None, st\<lparr>storeCache := VObject ms,
                       storeFiles := (storeFiles st)(storePath st \<mapsto>
                         render_object 0 (map (map_prod id (\<lambda>v. render v (Suc 0))) ms))\<rparr>)
      else (Some (WriteThrew (storePath st)), st\<lparr>storeCache := VObject ms\<rparr>))"
  by (simp add: saveTokens_text_def JSON_stringify_object Let_def)

lemma load_after_save:
  assumes "\<forall>m \<in> set ms. snd m = VUndefined \<or> flat (snd m)" and "storeWritable st (storePath st)"
  shows "loadTokens_text ((snd (saveTokens_text (VObject ms) st))\<lparr>storeCache := c\<rparr>) =
           (TLoaded (VObject (map (\<lambda>m. (fst m, json_image (snd m))) (defined_members ms))),
            (snd (saveTokens_text (VObject ms) st))
              \<lparr>storeCache := VObject (map (\<lambda>m. (fst m, json_image (snd m))) (defined_members ms))\<rparr>)"
  using assms(2)
  by (simp add: saveTokens_text_object loadTokens_text_def JSON_parse_stringified [OF assms(1)])

lemma tokenObject_members_flat:
  "\<forall>m \<in> set [(''accessToken'', VString a), (''refreshToken'', VString r), (''expiresAt'', VNumber e),
               (''clientId'', optString cid), (''clientSecret'', optString cs),
               (''tenantId'', optString tid)]. snd m = VUndefined \<or> flat (snd m)"
  by (simp add: flat_def optString_def split: option.split)

lemma tokenObject_image:
  "map (\<lambda>m. (fst m, json_image (snd m)))
     (defined_members [(''accessToken'', VString a), (''refreshToken'', VString r), (''expiresAt'', VNumber e),
               (''clientId'', optString cid), (''clientSecret'', optString cs),
               (''tenantId'', optString tid)]) =
   [(''accessToken'', VString a), (''refreshToken'', VString r),
    (''expiresAt'', case e of NumInt n \<Rightarrow> VNumber (NumInt n) | _ \<Rightarrow> VNull)] @
   optMember ''clientId'' cid @ optMember ''clientSecret'' cs @ optMember ''tenantId'' tid"
  by (cases e; cases cid; cases cs; cases tid)
     (simp_all add: defined_members_def json_image_def optString_def optMember_def)

lemma load_after_save_tokenObject:
  assumes "storeWritable st (storePath st)"
  shows "loadTokens_text ((snd (saveTokens_text (tokenObject a r e cid cs tid) st))\<lparr>storeCache := c\<rparr>) =
           (TLoaded (VObject ([(''accessToken'', VString a), (''refreshToken'', VString r),
                               (''expiresAt'', case e of NumInt n \<Rightarrow> VNumber (NumInt n) | _ \<Rightarrow> VNull)] @
                              optMember ''clientId'' cid @ optMember ''clientSecret'' cs @
                              optMember ''tenantId'' tid)),
            (snd (saveTokens_text (tokenObject a r e cid cs tid) st))
              \<lparr>storeCache := VObject ([(''accessToken'', VString a), (''refreshToken'', VString r),
                               (''expiresAt'', case e of NumInt n \<Rightarrow> VNumber (NumInt n) | _ \<Rightarrow> VNull)] @
                              optMember ''clientId'' cid @ optMember ''clientSecret'' cs @
                              optMember ''tenantId'' tid)\<rparr>)"
  unfolding tokenObject_def
  using load_after_save [OF tokenObject_members_flat assms, where c = c]
  unfolding tokenObject_image .


text \<open>The typed model of a token file agrees with the text: the object of a record, written by
  \<^verbatim>\<open>saveTokens\<close> and loaded again, reads back as that record.\<close>

lemma recordOf_loaded:
  "recordOf (VObject ([(''accessToken'', VString (accessToken t)), (''refreshToken'', VString (refreshToken t)),
                       (''expiresAt'', VNumber (NumInt (expiresAt t)))] @
                      optMember ''clientId'' (clientId t) @ optMember ''clientSecret'' (clientSecret t) @
                      optMember ''tenantId'' (tenantId t))) = Some t"
  by (cases "clientId t"; cases "clientSecret t"; cases "tenantId t")
     (simp_all add: recordOf_def getField_def optMember_def stringField_def integerField_def)

lemma stored_record_text_roundtrip:
  assumes "storeWritable st (storePath st)"
  shows "\<exists>v. fst (loadTokens_text ((snd (saveTokens_text (objectOf t) st))\<lparr>storeCache := c\<rparr>)) = TLoaded v \<and>
             recordOf v = Some t"
  unfolding objectOf_def
  using load_after_save_tokenObject [OF assms, where a = "accessToken t" and r = "refreshToken t"
          and e = "NumInt (expiresAt t)" and cid = "clientId t" and cs = "clientSecret t"
          and tid = "tenantId t" and c = c]
        recordOf_loaded [of t]
  by simp




subsection \<open>getTokens on the stored and the legacy file\<close>

text \<open>
  C5. No pair of tokens in the environment, and the canonical file holds a record whose
  \<open>expiresAt\<close> is more than the safety margin after the reading of the clock. Then
  \<^verbatim>\<open>getTokens\<close> returns that record, equal in all fields; it makes no HTTP call, does
  not invoke \<^verbatim>\<open>refreshToken\<close>, and leaves the files as they are.
\<close>

theorem getTokens_unexpired_stored_record:
  assumes "\<not> (truthy (env w ''MS_TODO_ACCESS_TOKEN'') \<and> truthy (env w ''MS_TODO_REFRESH_TOKEN''))"
    and "files w (tokenFilePath w) = Some (Json (Some t))"
    and "clock w (ticks w) + safetyMargin < expiresAt t"
  shows "fst (getTokens w) = Some t \<and>
         tokenCalls (snd (getTokens w)) = tokenCalls w \<and>
         graphCalls (snd (getTokens w)) = graphCalls w \<and>
         refreshCalls (snd (getTokens w)) = refreshCalls w \<and>
         files (snd (getTokens w)) = files w"
proof -
  from assms(3) have "clock w (ticks w) \<le> expiresAt t"
    by (simp add: safetyMargin_def)
  with assms(2) show ?thesis
    by (simp add: getTokens_no_env [OF assms(1)] getTokens_stored_unexpired)
qed

theorem getTokens_unexpired_stored_record_witness:
  "fst (getTokens (idle_world\<lparr>files := [''/cfg/tokens.json'' \<mapsto>
          Json (Some (sample_record\<lparr>expiresAt := 1700003600000\<rparr>))]\<rparr>)) =
     Some (sample_record\<lparr>expiresAt := 1700003600000\<rparr>) \<and>
   tokenCalls (snd (getTokens (idle_world\<lparr>files := [''/cfg/tokens.json'' \<mapsto>
          Json (Some (sample_record\<lparr>expiresAt := 1700003600000\<rparr>))]\<rparr>))) = []"
  using getTokens_unexpired_stored_record
    [of "idle_world\<lparr>files := [''/cfg/tokens.json'' \<mapsto>
          Json (Some (sample_record\<lparr>expiresAt := 1700003600000\<rparr>))]\<rparr>"
        "sample_record\<lparr>expiresAt := 1700003600000\<rparr>"]
  by (simp add: eval_defs)

text \<open>
  C6, as the code has it. No pair of tokens in the environment, no file at the canonical
  path, and a record in the legacy file. Then \<^verbatim>\<open>getTokens\<close> attempts to write the
  record to the canonical path, without reading the clock (so there is no expiry check)
  and without attempting a refresh.
  \<^item> When the write succeeds, it returns the record; the record is stored at the
    canonical path; every other file, the legacy file among them, is as before; and a
    load from the canonical path afterwards yields the same record.
  \<^item> When the write throws, the \<^verbatim>\<open>catch\<close> logs the error and \<^verbatim>\<open>getTokens\<close> returns
    \<^verbatim>\<open>null\<close>; all files are as before.
\<close>

theorem getTokens_migrates_legacy_record:
  assumes "\<not> (truthy (env w ''MS_TODO_ACCESS_TOKEN'') \<and> truthy (env w ''MS_TODO_REFRESH_TOKEN''))"
    and "files w (tokenFilePath w) = None"
    and "files w (legacyPath w) = Some (Json (Some t))"
  shows "ticks (snd (getTokens w)) = ticks w \<and>
         refreshCalls (snd (getTokens w)) = refreshCalls w \<and>
         tokenCalls (snd (getTokens w)) = tokenCalls w \<and>
         fsTrace (snd (getTokens w)) =
           fsTrace w @ [FsExists (tokenFilePath w), FsExists (legacyPath w),
                        FsRead (legacyPath w), FsWrite (tokenFilePath w)] \<and>
         (writable w (tokenFilePath w) \<longrightarrow>
            fst (getTokens w) = Some t \<and>
            files (snd (getTokens w)) = (files w)(tokenFilePath w \<mapsto> Json (Some t)) \<and>
            files (snd (getTokens w)) (legacyPath w) = files w (legacyPath w) \<and>
            fst (readTokenFile (tokenFilePath (snd (getTokens w))) (snd (getTokens w))) =
              Loaded (Some t)) \<and>
         (\<not> writable w (tokenFilePath w) \<longrightarrow>
            fst (getTokens w) = None \<and>
            files (snd (getTokens w)) = files w \<and>
            console (snd (getTokens w)) = console w @ [LogErrorReadingLegacyTokenFile])"
proof -
  let ?w1 = "w\<lparr>fsTrace := fsTrace w @ [FsExists (tokenFilePath w)]\<rparr>"
  from assms(2,3) have neq: "legacyPath w \<noteq> tokenFilePath w" by auto
  have g: "getTokens w = getTokens_legacy ?w1"
    by (rule getTokens_legacy_only [OF assms(1,2)])
  have l: "files ?w1 (legacyPath ?w1) = Some (Json (Some t))"
    using assms(3) by simp
  show ?thesis
  proof (cases "writable w (tokenFilePath w)")
    case True
    then have "writable ?w1 (tokenFilePath ?w1)" by simp
    from getTokens_legacy_Json [OF l this] True neq show ?thesis
      by (simp add: g readTokenFile_Json)
  next
    case False
    then have "\<not> writable ?w1 (tokenFilePath ?w1)" by simp
    from getTokens_legacy_unwritable [OF l this] False show ?thesis
      by (simp add: g)
  qed
qed

theorem getTokens_migrates_legacy_record_witness:
  "fst (getTokens (idle_world\<lparr>files := [''/cwd/tokens.json'' \<mapsto> Json (Some sample_record)]\<rparr>)) =
     Some sample_record \<and>
   files (snd (getTokens (idle_world\<lparr>files := [''/cwd/tokens.json'' \<mapsto> Json (Some sample_record)]\<rparr>))) =
     [''/cwd/tokens.json'' \<mapsto> Json (Some sample_record),
      ''/cfg/tokens.json'' \<mapsto> Json (Some sample_record)] \<and>
   ticks (snd (getTokens (idle_world\<lparr>files := [''/cwd/tokens.json'' \<mapsto> Json (Some sample_record)]\<rparr>))) = 0 \<and>
   fst (getTokens (idle_world\<lparr>files := [''/cwd/tokens.json'' \<mapsto> Json (Some sample_record)],
                               writable := (\<lambda>_. False)\<rparr>)) = None \<and>
   console (snd (getTokens (idle_world\<lparr>files := [''/cwd/tokens.json'' \<mapsto> Json (Some sample_record)],
                               writable := (\<lambda>_. False)\<rparr>))) = [LogErrorReadingLegacyTokenFile]"
  using getTokens_migrates_legacy_record
    [of "idle_world\<lparr>files := [''/cwd/tokens.json'' \<mapsto> Json (Some sample_record)]\<rparr>" sample_record]
    getTokens_migrates_legacy_record
    [of "idle_world\<lparr>files := [''/cwd/tokens.json'' \<mapsto> Json (Some sample_record)],
                     writable := (\<lambda>_. False)\<rparr>" sample_record]
  by (simp add: eval_defs)

text \<open>
  C6 as stated fails when the canonical file cannot be written: with the sample record in
  the legacy file only, \<^verbatim>\<open>getTokens\<close> returns \<^verbatim>\<open>null\<close> instead of the record, and there
  is still no file at the canonical path.
\<close>

theorem getTokens_legacy_unwritable_returns_null:
  "files (idle_world\<lparr>files := [''/cwd/tokens.json'' \<mapsto> Json (Some sample_record)],
                     writable := (\<lambda>_. False)\<rparr>) ''/cfg/tokens.json'' = None \<and>
   fst (getTokens (idle_world\<lparr>files := [''/cwd/tokens.json'' \<mapsto> Json (Some sample_record)],
                               writable := (\<lambda>_. False)\<rparr>)) = None \<and>
   fst (getTokens (idle_world\<lparr>files := [''/cwd/tokens.json'' \<mapsto> Json (Some sample_record)],
                               writable := (\<lambda>_. False)\<rparr>)) \<noteq> Some sample_record \<and>
   files (snd (getTokens (idle_world\<lparr>files := [''/cwd/tokens.json'' \<mapsto> Json (Some sample_record)],
                               writable := (\<lambda>_. False)\<rparr>))) ''/cfg/tokens.json'' = None"
  by (simp add: eval_defs)

subsection \<open>Priority of the environment\<close>

text \<open>
  C4. When both environment variables hold a non-empty string, \<^verbatim>\<open>getTokens\<close> always
  returns a record, refreshable or not: the record built from the pair, or the one a
  refresh with the pair's refresh token returned. The result is the same whatever the
  token files contain, and during the call no token file is probed or read: the only
  file access there can be is the write of a successful refresh. In particular this
  holds when the canonical file holds a record.
\<close>

theorem getTokens_env_pair_priority:
  assumes "env w ''MS_TODO_ACCESS_TOKEN'' = Some a" "a \<noteq> []"
    and "env w ''MS_TODO_REFRESH_TOKEN'' = Some r" "r \<noteq> []"
  shows "fst (getTokens w) \<noteq> None \<and>
         (fst (getTokens w) = Some \<lparr>accessToken = a, refreshToken = r,
                                   expiresAt = clock w (ticks w) + assumedLifetime,
                                   clientId = None, clientSecret = None, tenantId = None\<rparr> \<or>
          fst (getTokens w) = fst (refreshToken_fn r (w\<lparr>ticks := Suc (Suc (ticks w))\<rparr>))) \<and>
         fst (getTokens (w\<lparr>files := f\<rparr>)) = fst (getTokens w) \<and>
         (fsTrace (snd (getTokens w)) = fsTrace w \<or>
          fsTrace (snd (getTokens w)) = fsTrace w @ [FsWrite (tokenFilePath w)])"
proof -
  let ?w2 = "w\<lparr>ticks := Suc (Suc (ticks w))\<rparr>"
  let ?v = "w\<lparr>files := f\<rparr>"
  let ?v2 = "?v\<lparr>ticks := Suc (Suc (ticks ?v))\<rparr>"
  have e: "env ?v ''MS_TODO_ACCESS_TOKEN'' = Some a" "env ?v ''MS_TODO_REFRESH_TOKEN'' = Some r"
    using assms by simp_all
  have i: "fst (refreshToken_fn r ?v2) = fst (refreshToken_fn r ?w2)"
    by (rule refreshToken_fn_fst_cong) simp_all
  have t: "fsTrace (snd (refreshToken_fn r ?w2)) = fsTrace w \<or>
           fsTrace (snd (refreshToken_fn r ?w2)) = fsTrace w @ [FsWrite (tokenFilePath w)]"
    using refreshToken_fn_fsTrace [of r ?w2] by simp
  show ?thesis
  proof (cases "clock w (Suc (ticks w)) > clock w (ticks w) + assumedLifetime")
    case False
    then have "\<not> clock ?v (Suc (ticks ?v)) > clock ?v (ticks ?v) + assumedLifetime" by simp
    from getTokens_env_unexpired [OF assms False]
      getTokens_env_unexpired [OF e(1) assms(2) e(2) assms(4) this]
    show ?thesis by simp
  next
    case True
    then have True': "clock ?v (Suc (ticks ?v)) > clock ?v (ticks ?v) + assumedLifetime" by simp
    from getTokens_env_expired [OF assms True]
      getTokens_env_expired [OF e(1) assms(2) e(2) assms(4) True'] i t
    show ?thesis by (cases "fst (refreshToken_fn r ?w2)") simp_all
  qed
qed

theorem getTokens_env_pair_priority_witness:
  "files (idle_world\<lparr>env := env_pair, files := [''/cfg/tokens.json'' \<mapsto> Json (Some sample_record)]\<rparr>)
     ''/cfg/tokens.json'' = Some (Json (Some sample_record)) \<and>
   fst (getTokens (idle_world\<lparr>env := env_pair,
          files := [''/cfg/tokens.json'' \<mapsto> Json (Some sample_record)]\<rparr>)) =
     Some \<lparr>accessToken = ''EA'', refreshToken = ''ER'', expiresAt = 1700004200000,
           clientId = None, clientSecret = None, tenantId = None\<rparr> \<and>
   fsTrace (snd (getTokens (idle_world\<lparr>env := env_pair,
          files := [''/cfg/tokens.json'' \<mapsto> Json (Some sample_record)]\<rparr>))) = []"
  using getTokens_env_pair_priority
    [of "idle_world\<lparr>env := env_pair, files := [''/cfg/tokens.json'' \<mapsto> Json (Some sample_record)]\<rparr>"
        "''EA''" "''ER''" "\<lambda>_. None"]
  by (simp add: eval_defs)

subsection \<open>Expired records\<close>




text \<open>
  C10, as the code has it. The record from the canonical file, or the one built from the
  environment pair, is found expired, and the refresh fails for another reason than a
  failed write of the token file: it stops before the save, because client credentials
  are missing, \<^verbatim>\<open>fetch\<close> throws, the answer is not a success, or the answer does not
  parse. Then the refresh returns \<^verbatim>\<open>null\<close>, \<^verbatim>\<open>getTokens\<close> returns that stale record,
  whose \<open>expiresAt\<close> lies before the clock reading of the check, and the cached record
  and all files are as they were when the refresh began. Whether the token file could
  have been written plays no part. These four are all the ways a refresh can fail apart
  from the write: a refresh returns \<^verbatim>\<open>null\<close> exactly when it stops before the save or the
  write throws.
\<close>

theorem getTokens_failed_refresh_returns_stale:
  "(\<not> (truthy (env w ''MS_TODO_ACCESS_TOKEN'') \<and> truthy (env w ''MS_TODO_REFRESH_TOKEN'')) \<and>
    files w (tokenFilePath w) = Some (Json (Some t)) \<and> clock w (ticks w) > expiresAt t \<and>
    refreshStopsBeforeSave (refreshToken t)
           (w\<lparr>fsTrace := fsTrace w @ [FsExists (tokenFilePath w), FsRead (tokenFilePath w)],
                 currentTokens := Some t, ticks := Suc (ticks w)\<rparr>) \<longrightarrow>
      fst (refreshToken_fn (refreshToken t)
           (w\<lparr>fsTrace := fsTrace w @ [FsExists (tokenFilePath w), FsRead (tokenFilePath w)],
                 currentTokens := Some t, ticks := Suc (ticks w)\<rparr>)) = None \<and>
      fst (getTokens w) = Some t \<and> expiresAt t < clock w (ticks w) \<and>
      currentTokens (snd (getTokens w)) = Some t \<and>
      files (snd (getTokens w)) = files w) \<and>
   (env w ''MS_TODO_ACCESS_TOKEN'' = Some a \<and> a \<noteq> [] \<and>
    env w ''MS_TODO_REFRESH_TOKEN'' = Some r \<and> r \<noteq> [] \<and>
    clock w (Suc (ticks w)) > clock w (ticks w) + assumedLifetime \<and>
    refreshStopsBeforeSave r (w\<lparr>ticks := Suc (Suc (ticks w))\<rparr>) \<longrightarrow>
      fst (refreshToken_fn r (w\<lparr>ticks := Suc (Suc (ticks w))\<rparr>)) = None \<and>
      fst (getTokens w) = Some \<lparr>accessToken = a, refreshToken = r,
                                  expiresAt = clock w (ticks w) + assumedLifetime,
                                  clientId = None, clientSecret = None, tenantId = None\<rparr> \<and>
      clock w (ticks w) + assumedLifetime < clock w (Suc (ticks w)) \<and>
      currentTokens (snd (getTokens w)) = currentTokens w \<and>
      files (snd (getTokens w)) = files w) \<and>
   (fst (refreshToken_fn rt v) = None \<longleftrightarrow>
      refreshStopsBeforeSave rt v \<or> \<not> writable v (tokenFilePath v))"
proof (intro conjI impI)
  assume h: "\<not> (truthy (env w ''MS_TODO_ACCESS_TOKEN'') \<and> truthy (env w ''MS_TODO_REFRESH_TOKEN'')) \<and>
    files w (tokenFilePath w) = Some (Json (Some t)) \<and> clock w (ticks w) > expiresAt t \<and>
    refreshStopsBeforeSave (refreshToken t)
           (w\<lparr>fsTrace := fsTrace w @ [FsExists (tokenFilePath w), FsRead (tokenFilePath w)],
                 currentTokens := Some t, ticks := Suc (ticks w)\<rparr>)"
  let ?w3 = "(w\<lparr>fsTrace := fsTrace w @ [FsExists (tokenFilePath w), FsRead (tokenFilePath w)],
                 currentTokens := Some t, ticks := Suc (ticks w)\<rparr>)"
  have g: "getTokens w = getTokens_stored w" using h by (simp add: getTokens_no_env)
  have p: "files w (tokenFilePath w) = Some (Json (Some t))" "clock w (ticks w) > expiresAt t"
    using h by simp_all
  note parts = getTokens_stored_expired_parts [OF p]
  have st: "refreshStopsBeforeSave (refreshToken t) ?w3" using h by simp
  note stop = refreshToken_fn_stops [OF st]
  show "fst (refreshToken_fn (refreshToken t) ?w3) = None" by (rule stop(1))
  show "fst (getTokens w) = Some t" unfolding g parts using stop(1,2) by simp
  show "expiresAt t < clock w (ticks w)" using p(2) by simp
  show "currentTokens (snd (getTokens w)) = Some t" unfolding g parts using stop(2) by simp
  show "files (snd (getTokens w)) = files w" unfolding g parts using stop(3) by simp
next
  assume h: "env w ''MS_TODO_ACCESS_TOKEN'' = Some a \<and> a \<noteq> [] \<and>
    env w ''MS_TODO_REFRESH_TOKEN'' = Some r \<and> r \<noteq> [] \<and>
    clock w (Suc (ticks w)) > clock w (ticks w) + assumedLifetime \<and>
    refreshStopsBeforeSave r (w\<lparr>ticks := Suc (Suc (ticks w))\<rparr>)"
  let ?w2 = "w\<lparr>ticks := Suc (Suc (ticks w))\<rparr>"
  have p: "env w ''MS_TODO_ACCESS_TOKEN'' = Some a" "a \<noteq> []"
    "env w ''MS_TODO_REFRESH_TOKEN'' = Some r" "r \<noteq> []"
    "clock w (Suc (ticks w)) > clock w (ticks w) + assumedLifetime"
    using h by simp_all
  note parts = getTokens_env_expired [OF p]
  have st: "refreshStopsBeforeSave r ?w2" using h by simp
  note stop = refreshToken_fn_stops [OF st]
  show "fst (refreshToken_fn r ?w2) = None" by (rule stop(1))
  show "fst (getTokens w) = Some \<lparr>accessToken = a, refreshToken = r,
                                  expiresAt = clock w (ticks w) + assumedLifetime,
                                  clientId = None, clientSecret = None, tenantId = None\<rparr>"
    unfolding parts using stop(1) by simp
  show "clock w (ticks w) + assumedLifetime < clock w (Suc (ticks w))" using p(5) by simp
  show "currentTokens (snd (getTokens w)) = currentTokens w" unfolding parts using stop(2) by simp
  show "files (snd (getTokens w)) = files w" unfolding parts using stop(3) by simp
next
  show "fst (refreshToken_fn rt v) = None \<longleftrightarrow>
      refreshStopsBeforeSave rt v \<or> \<not> writable v (tokenFilePath v)"
    by (rule refreshToken_fn_fails_iff)
qed

theorem getTokens_failed_refresh_returns_stale_witness:
  "refreshStopsBeforeSave ''R1''
     (idle_world\<lparr>files := [''/cfg/tokens.json'' \<mapsto> Json (Some sample_record)],
                 tokenEndpoint := provider_rejects,
                 fsTrace := [FsExists ''/cfg/tokens.json'', FsRead ''/cfg/tokens.json''],
                 currentTokens := Some sample_record, ticks := 1\<rparr>) \<and>
   getTokens (idle_world\<lparr>files := [''/cfg/tokens.json'' \<mapsto> Json (Some sample_record)],
                         tokenEndpoint := provider_rejects\<rparr>) =
     (Some sample_record,
      idle_world\<lparr>files := [''/cfg/tokens.json'' \<mapsto> Json (Some sample_record)],
                  tokenEndpoint := provider_rejects,
                  fsTrace := [FsExists ''/cfg/tokens.json'', FsRead ''/cfg/tokens.json''],
                  currentTokens := Some sample_record, ticks := 1,
                  refreshCalls := [''R1''],
                  tokenCalls := [(refreshRequest ''R1'' (idle_world\<lparr>currentTokens := Some sample_record\<rparr>),
                                  provider_rejects 0 (refreshRequest ''R1'' (idle_world\<lparr>currentTokens := Some sample_record\<rparr>)))],
                  console := [LogTokenRefreshFailed ''invalid_grant'', LogReauthPrompt ''/cfg/tokens.json'']\<rparr>) \<and>
   fst (getTokens (idle_world\<lparr>files := [''/cfg/tokens.json'' \<mapsto> Json (Some sample_record)],
                               tokenEndpoint := provider_rejects, writable := (\<lambda>_. False)\<rparr>)) =
     Some sample_record \<and>
   currentTokens (snd (getTokens (idle_world\<lparr>files := [''/cfg/tokens.json'' \<mapsto> Json (Some sample_record)],
                               tokenEndpoint := provider_rejects, writable := (\<lambda>_. False)\<rparr>))) =
     Some sample_record \<and>
   refreshStopsBeforeSave ''ER'' (idle_world\<lparr>env := env_pair, clock := leaping_clock, ticks := 2\<rparr>) \<and>
   fst (getTokens (idle_world\<lparr>env := env_pair, clock := leaping_clock\<rparr>)) =
     Some \<lparr>accessToken = ''EA'', refreshToken = ''ER'', expiresAt = 1700004200000,
           clientId = None, clientSecret = None, tenantId = None\<rparr> \<and>
   currentTokens (snd (getTokens (idle_world\<lparr>env := env_pair, clock := leaping_clock\<rparr>))) = None"
  using getTokens_failed_refresh_returns_stale
    [of "idle_world\<lparr>files := [''/cfg/tokens.json'' \<mapsto> Json (Some sample_record)],
                     tokenEndpoint := provider_rejects\<rparr>" sample_record]
    getTokens_failed_refresh_returns_stale
    [of "idle_world\<lparr>files := [''/cfg/tokens.json'' \<mapsto> Json (Some sample_record)],
                     tokenEndpoint := provider_rejects, writable := (\<lambda>_. False)\<rparr>" sample_record]
    getTokens_failed_refresh_returns_stale
    [of "idle_world\<lparr>env := env_pair, clock := leaping_clock\<rparr>" _ "''EA''" "''ER''"]
  by (simp add: eval_defs)

text \<open>
  C10 as stated fails when the refresh fails at the write. The canonical file holds the
  expired sample record, the provider grants the refresh, and the token file cannot be
  written: \<^verbatim>\<open>saveTokens\<close> has assigned the cache before \<^verbatim>\<open>writeFileSync\<close> throws, so the
  refresh returns \<^verbatim>\<open>null\<close>, yet \<^verbatim>\<open>getTokens\<close> returns the new record and the cached record
  has changed.
\<close>

theorem getTokens_failed_write_changes_cache:
  "fst (refreshToken_fn ''R1''
         (idle_world\<lparr>files := [''/cfg/tokens.json'' \<mapsto> Json (Some sample_record)],
                     tokenEndpoint := provider_ok, writable := (\<lambda>_. False),
                     fsTrace := [FsExists ''/cfg/tokens.json'', FsRead ''/cfg/tokens.json''],
                     currentTokens := Some sample_record, ticks := 1\<rparr>)) = None \<and>
   fst (getTokens (idle_world\<lparr>files := [''/cfg/tokens.json'' \<mapsto> Json (Some sample_record)],
                               tokenEndpoint := provider_ok, writable := (\<lambda>_. False)\<rparr>)) =
     Some \<lparr>accessToken = ''A2'', refreshToken = ''R1'', expiresAt = 1700003900001,
           clientId = Some ''app'', clientSecret = Some ''secret'', tenantId = Some ''organizations''\<rparr> \<and>
   fst (getTokens (idle_world\<lparr>files := [''/cfg/tokens.json'' \<mapsto> Json (Some sample_record)],
                               tokenEndpoint := provider_ok, writable := (\<lambda>_. False)\<rparr>)) \<noteq>
     Some sample_record \<and>
   currentTokens (snd (getTokens (idle_world\<lparr>files := [''/cfg/tokens.json'' \<mapsto> Json (Some sample_record)],
                               tokenEndpoint := provider_ok, writable := (\<lambda>_. False)\<rparr>))) \<noteq>
     Some sample_record \<and>
   files (snd (getTokens (idle_world\<lparr>files := [''/cfg/tokens.json'' \<mapsto> Json (Some sample_record)],
                               tokenEndpoint := provider_ok, writable := (\<lambda>_. False)\<rparr>)))
     ''/cfg/tokens.json'' = Some (Json (Some sample_record))"
  by (simp add: eval_defs)

subsection \<open>The request client\<close>

text \<open>Obtaining a token makes no call to the Graph API and leaves that service as it is.\<close>

lemma refreshToken_fn_graph:
  "refreshToken_fn rt w = (x, y) \<Longrightarrow> graphCalls y = graphCalls w \<and> graphApi y = graphApi w"
  using refreshToken_fn_frame(7,8) [of rt w] by simp

lemma getTokens_legacy_graph:
  "graphCalls (snd (getTokens_legacy w)) = graphCalls w \<and> graphApi (snd (getTokens_legacy w)) = graphApi w"
  by (simp add: getTokens_legacy_def readTokenFile_def saveTokens_def trace_def log_def Let_def
        split: prod.splits option.splits file_content.splits load_result.splits)

lemma getTokens_stored_graph:
  "graphCalls (snd (getTokens_stored w)) = graphCalls w \<and> graphApi (snd (getTokens_stored w)) = graphApi w"
  by (auto simp add: getTokens_stored_def readTokenFile_def trace_def log_def dateNow_def Let_def
        getTokens_legacy_graph
        split: prod.splits option.splits file_content.splits load_result.splits
        dest!: refreshToken_fn_graph)

lemma getTokens_graph:
  "graphCalls (snd (getTokens w)) = graphCalls w \<and> graphApi (snd (getTokens w)) = graphApi w"
  by (auto simp add: getTokens_def dateNow_def Let_def getTokens_stored_graph
        split: prod.splits option.splits dest!: refreshToken_fn_graph)

lemma getAccessToken_graph:
  "getAccessToken w = (x, y) \<Longrightarrow> graphCalls y = graphCalls w \<and> graphApi y = graphApi w"
  using getTokens_graph [of "log LogGetAccessTokenCalled w"]
  by (auto simp add: getAccessToken_def log_def split: prod.splits option.splits)

lemma handleResponse_graphCalls:
  "graphCalls (snd (handleResponse m r w)) = graphCalls w"
  by (simp add: handleResponse_def log_def Let_def split: option.splits)

lemma handleResponse_fst:
  "fst (handleResponse m r w) =
     (if \<not> ok r
      then (if includes_str (bodyText r) ''MailboxNotEnabledForRESTAPI''
            then Inl AccountCapabilityError else Inl (HttpError (status r) (bodyText r)))
      else if m = ''DELETE'' then Inr (JObj [])
      else (case bodyJson r of None \<Rightarrow> Inl GraphJsonThrew | Some data \<Rightarrow> Inr data))"
  by (simp add: handleResponse_def log_def Let_def split: option.splits)

lemma handleResponse_mailbox:
  "\<not> ok r \<Longrightarrow> includes_str (bodyText r) ''MailboxNotEnabledForRESTAPI'' \<Longrightarrow>
     handleResponse m r w =
       (Inl AccountCapabilityError,
        w\<lparr>console := console w @ [LogHttpError (status r) (bodyText r), LogMailboxBanner]\<rparr>)"
  by (simp add: handleResponse_def log_def Let_def)

lemma makeGraphRequest_parts:
  "fst (makeGraphRequest u token method body w) =
     (case fst (makeGraphRequest_try u token method body w) of Inl e \<Rightarrow> None | Inr data \<Rightarrow> Some data)"
  "graphCalls (snd (makeGraphRequest u token method body w)) =
     graphCalls (snd (makeGraphRequest_try u token method body w))"
  "fst (makeGraphRequest_try u token method body w) = Inl e \<Longrightarrow>
     console (snd (makeGraphRequest u token method body w)) =
       console (snd (makeGraphRequest_try u token method body w)) @ [LogErrorMakingGraphRequest e]"
  by (cases "makeGraphRequest_try u token method body w";
      cases "fst (makeGraphRequest_try u token method body w)";
      simp add: makeGraphRequest_def log_def)+

text \<open>The course of \<^verbatim>\<open>makeGraphRequest\<close> after a first answer with status 401.\<close>

lemma makeGraphRequest_try_401:
  assumes "graphApi w (length (graphCalls w)) (graphOptions u token method body) = Response r1"
    and "status r1 = 401"
    and "getAccessToken (log LogGot401 (snd (fetchGraph (graphOptions u token method body)
            (log (LogRequestOptions method) (log (LogMakingRequest u) w))))) = (newToken, w2)"
  shows "makeGraphRequest_try u token method body w =
     (if truthy newToken \<and> newToken \<noteq> Some token
      then (case fetchGraph (graphOptions u (js_or_str newToken []) method body) w2 of
              (NetworkError, w3) \<Rightarrow> (Inl GraphFetchThrew, w3)
            | (Response response2, w3) \<Rightarrow> handleResponse method response2 w3)
      else handleResponse method r1 w2)"
    and "graphCalls w2 = graphCalls w @ [(graphOptions u token method body, Response r1)]"
    and "graphApi w2 = graphApi w"
proof -
  let ?w0 = "log (LogRequestOptions method) (log (LogMakingRequest u) w)"
  let ?w1 = "?w0\<lparr>graphCalls := graphCalls ?w0 @ [(graphOptions u token method body, Response r1)]\<rparr>"
  have a: "graphApi ?w0 (length (graphCalls ?w0)) (graphOptions u token method body) = Response r1"
    using assms(1) by (simp add: log_def)
  have f: "fetchGraph (graphOptions u token method body) ?w0 = (Response r1, ?w1)"
    unfolding fetchGraph_def Let_def a ..
  from assms(3) have tok: "getAccessToken (log LogGot401 ?w1) = (newToken, w2)"
    unfolding f snd_conv .
  show "makeGraphRequest_try u token method body w =
     (if truthy newToken \<and> newToken \<noteq> Some token
      then (case fetchGraph (graphOptions u (js_or_str newToken []) method body) w2 of
              (NetworkError, w3) \<Rightarrow> (Inl GraphFetchThrew, w3)
            | (Response response2, w3) \<Rightarrow> handleResponse method response2 w3)
      else handleResponse method r1 w2)"
    unfolding makeGraphRequest_try_def Let_def f using assms(2) by (simp add: tok)
  have "graphCalls ?w1 = graphCalls w @ [(graphOptions u token method body, Response r1)]"
       "graphApi ?w1 = graphApi w"
    by (simp_all add: log_def)
  with getAccessToken_graph [OF tok]
  show "graphCalls w2 = graphCalls w @ [(graphOptions u token method body, Response r1)]"
    and "graphApi w2 = graphApi w"
    by (simp_all add: log_def)
qed

lemma makeGraphRequest_try_401_same:
  assumes "graphApi w (length (graphCalls w)) (graphOptions u token method body) = Response r1"
    and "status r1 = 401"
    and "getAccessToken (log LogGot401 (snd (fetchGraph (graphOptions u token method body)
            (log (LogRequestOptions method) (log (LogMakingRequest u) w))))) = (newToken, w2)"
    and "\<not> (truthy newToken \<and> newToken \<noteq> Some token)"
  shows "fst (makeGraphRequest_try u token method body w) =
           Inl (if includes_str (bodyText r1) ''MailboxNotEnabledForRESTAPI''
                then AccountCapabilityError else HttpError 401 (bodyText r1))"
    and "graphCalls (snd (makeGraphRequest_try u token method body w)) =
           graphCalls w @ [(graphOptions u token method body, Response r1)]"
proof -
  note t = makeGraphRequest_try_401 [OF assms(1-3)]
  have nok: "\<not> ok r1" using assms(2) by (simp add: ok_def)
  have m: "makeGraphRequest_try u token method body w = handleResponse method r1 w2"
    unfolding t(1) using assms(4) by (rule if_not_P)
  show "fst (makeGraphRequest_try u token method body w) =
           Inl (if includes_str (bodyText r1) ''MailboxNotEnabledForRESTAPI''
                then AccountCapabilityError else HttpError 401 (bodyText r1))"
    unfolding m using nok assms(2) by (simp add: handleResponse_fst)
  show "graphCalls (snd (makeGraphRequest_try u token method body w)) =
           graphCalls w @ [(graphOptions u token method body, Response r1)]"
    unfolding m by (simp add: handleResponse_graphCalls t(2))
qed

lemma makeGraphRequest_try_401_retry:
  assumes "graphApi w (length (graphCalls w)) (graphOptions u token method body) = Response r1"
    and "status r1 = 401"
    and "getAccessToken (log LogGot401 (snd (fetchGraph (graphOptions u token method body)
            (log (LogRequestOptions method) (log (LogMakingRequest u) w))))) = (newToken, w2)"
    and "truthy newToken \<and> newToken \<noteq> Some token"
  shows "fst (makeGraphRequest_try u token method body w) =
           (case graphApi w (Suc (length (graphCalls w))) (graphOptions u (js_or_str newToken []) method body) of
              NetworkError \<Rightarrow> Inl GraphFetchThrew
            | Response r2 \<Rightarrow> fst (handleResponse method r2 w))"
    and "graphCalls (snd (makeGraphRequest_try u token method body w)) =
           graphCalls w @
             [(graphOptions u token method body, Response r1),
              (graphOptions u (js_or_str newToken []) method body,
               graphApi w (Suc (length (graphCalls w))) (graphOptions u (js_or_str newToken []) method body))]"
proof -
  note t = makeGraphRequest_try_401 [OF assms(1-3)]
  let ?req2 = "graphOptions u (js_or_str newToken []) method body"
  let ?a = "graphApi w (Suc (length (graphCalls w))) ?req2"
  let ?w3 = "w2\<lparr>graphCalls := graphCalls w2 @ [(?req2, ?a)]\<rparr>"
  have f2: "fetchGraph ?req2 w2 = (?a, ?w3)"
    by (simp add: fetchGraph_def Let_def t(2,3))
  have m: "makeGraphRequest_try u token method body w =
             (case ?a of NetworkError \<Rightarrow> (Inl GraphFetchThrew, ?w3)
                       | Response r2 \<Rightarrow> handleResponse method r2 ?w3)"
    using assms(4) by (simp add: t(1) f2)
  show "fst (makeGraphRequest_try u token method body w) =
           (case ?a of NetworkError \<Rightarrow> Inl GraphFetchThrew
                     | Response r2 \<Rightarrow> fst (handleResponse method r2 w))"
    unfolding m by (cases ?a) (simp_all add: handleResponse_fst)
  show "graphCalls (snd (makeGraphRequest_try u token method body w)) =
           graphCalls w @ [(graphOptions u token method body, Response r1), (?req2, ?a)]"
    unfolding m by (cases ?a) (simp_all add: handleResponse_graphCalls t(2))
qed

text \<open>Whatever \<^verbatim>\<open>makeGraphRequest\<close> does, it ends either with a \<^verbatim>\<open>fetch\<close> that threw or by
  handling the response of its last \<^verbatim>\<open>fetch\<close>.\<close>

lemma makeGraphRequest_try_final:
  "(\<exists>w1. makeGraphRequest_try u token method body w = (Inl GraphFetchThrew, w1) \<and>
         graphCalls w1 \<noteq> [] \<and> snd (last (graphCalls w1)) = NetworkError) \<or>
   (\<exists>r' w1. makeGraphRequest_try u token method body w = handleResponse method r' w1 \<and>
         graphCalls w1 \<noteq> [] \<and> snd (last (graphCalls w1)) = Response r')"
proof (cases "graphApi w (length (graphCalls w)) (graphOptions u token method body)")
  case NetworkError
  then show ?thesis
    by (simp add: makeGraphRequest_try_def fetchGraph_def log_def Let_def)
next
  case (Response r1)
  let ?w1 = "snd (fetchGraph (graphOptions u token method body)
            (log (LogRequestOptions method) (log (LogMakingRequest u) w)))"
  show ?thesis
  proof (cases "status r1 = 401")
    case False
    have "makeGraphRequest_try u token method body w = handleResponse method r1 ?w1"
      using Response False by (simp add: makeGraphRequest_try_def fetchGraph_def log_def Let_def)
    moreover have "graphCalls ?w1 \<noteq> []" "snd (last (graphCalls ?w1)) = Response r1"
      using Response by (simp_all add: fetchGraph_def log_def Let_def)
    ultimately show ?thesis by blast
  next
    case True
    obtain newToken w2 where tok: "getAccessToken (log LogGot401 ?w1) = (newToken, w2)"
      by (cases "getAccessToken (log LogGot401 ?w1)")
    note t = makeGraphRequest_try_401 [OF Response True tok]
    show ?thesis
    proof (cases "truthy newToken \<and> newToken \<noteq> Some token")
      case False
      then have "makeGraphRequest_try u token method body w = handleResponse method r1 w2"
        unfolding t(1) by (rule if_not_P)
      moreover have "graphCalls w2 \<noteq> []" "snd (last (graphCalls w2)) = Response r1"
        by (simp_all add: t(2))
      ultimately show ?thesis by blast
    next
      case yes: True
      let ?req2 = "graphOptions u (js_or_str newToken []) method body"
      let ?a = "graphApi w2 (length (graphCalls w2)) ?req2"
      let ?w3 = "w2\<lparr>graphCalls := graphCalls w2 @ [(?req2, ?a)]\<rparr>"
      have f2: "fetchGraph ?req2 w2 = (?a, ?w3)"
        by (simp add: fetchGraph_def Let_def)
      show ?thesis
      proof (cases ?a)
        case NetworkError
        then have "makeGraphRequest_try u token method body w = (Inl GraphFetchThrew, ?w3)"
          using yes f2 by (simp add: t(1))
        moreover have "graphCalls ?w3 \<noteq> []" "snd (last (graphCalls ?w3)) = NetworkError"
          using NetworkError by simp_all
        ultimately show ?thesis by blast
      next
        case (Response r2)
        then have "makeGraphRequest_try u token method body w = handleResponse method r2 ?w3"
          using yes f2 by (simp add: t(1))
        moreover have "graphCalls ?w3 \<noteq> []" "snd (last (graphCalls ?w3)) = Response r2"
          using Response by simp_all
        ultimately show ?thesis by blast
      qed
    qed
  qed
qed

text \<open>Every call of \<^verbatim>\<open>makeGraphRequest\<close> makes one or two calls to the Graph API.\<close>

lemma makeGraphRequest_calls_bound:
  "length (graphCalls w) < length (graphCalls (snd (makeGraphRequest u token method body w))) \<and>
   length (graphCalls (snd (makeGraphRequest u token method body w))) \<le> length (graphCalls w) + 2"
proof (cases "graphApi w (length (graphCalls w)) (graphOptions u token method body)")
  case NetworkError
  then show ?thesis
    by (simp add: makeGraphRequest_parts(2) makeGraphRequest_try_def fetchGraph_def log_def Let_def)
next
  case (Response r1)
  let ?w1 = "snd (fetchGraph (graphOptions u token method body)
            (log (LogRequestOptions method) (log (LogMakingRequest u) w)))"
  show ?thesis
  proof (cases "status r1 = 401")
    case False
    have "makeGraphRequest_try u token method body w = handleResponse method r1 ?w1"
      using Response False by (simp add: makeGraphRequest_try_def fetchGraph_def log_def Let_def)
    moreover have "length (graphCalls ?w1) = Suc (length (graphCalls w))"
      by (simp add: fetchGraph_def log_def Let_def)
    ultimately show ?thesis
      by (simp add: makeGraphRequest_parts(2) handleResponse_graphCalls)
  next
    case True
    obtain newToken w2 where tok: "getAccessToken (log LogGot401 ?w1) = (newToken, w2)"
      by (cases "getAccessToken (log LogGot401 ?w1)")
    show ?thesis
    proof (cases "truthy newToken \<and> newToken \<noteq> Some token")
      case False
      from makeGraphRequest_try_401_same(2) [OF Response True tok False]
      show ?thesis by (simp add: makeGraphRequest_parts(2))
    next
      case yes: True
      from makeGraphRequest_try_401_retry(2) [OF Response True tok yes]
      show ?thesis by (simp add: makeGraphRequest_parts(2))
    qed
  qed
qed

text \<open>
  C2, as the code has it. The first response has status 401. \<^verbatim>\<open>makeGraphRequest\<close> then
  asks \<^verbatim>\<open>getAccessToken\<close> again, which gives \<open>newToken\<close>.
  \<^item> If \<open>newToken\<close> is a non-empty string other than the token the call was made with, the
    request is sent once more, the same but for the bearer token; these are the only
    two calls to the Graph API; and the caller gets the parsed body of the second
    response when that response is a success and parses, the empty object when the
    method is \<^verbatim>\<open>DELETE\<close> (whose body is not read), and \<^verbatim>\<open>null\<close> otherwise.
  \<^item> If not (the same token, the empty string or none), there is no second call: the
    401 goes down the path of every other failure. An error is thrown, the generic HTTP
    error with status 401 and the body, or the account-capability error when the body
    contains the mailbox marker; the function's own \<^verbatim>\<open>catch\<close> logs it last, and the
    caller gets \<^verbatim>\<open>null\<close>.
  \<^item> In no case are there more than two calls to the Graph API (for a first response
    of any kind, this is \<open>makeGraphRequest_calls_bound\<close>).
\<close>

theorem makeGraphRequest_401_single_retry:
  assumes "graphApi w (length (graphCalls w)) (graphOptions u token method body) = Response r1"
    and "status r1 = 401"
    and "getAccessToken (log LogGot401 (snd (fetchGraph (graphOptions u token method body)
            (log (LogRequestOptions method) (log (LogMakingRequest u) w))))) = (newToken, w2)"
  shows
   "(truthy newToken \<and> newToken \<noteq> Some token \<longrightarrow>
       graphCalls (snd (makeGraphRequest u token method body w)) =
          graphCalls w @
            [(graphOptions u token method body, Response r1),
             (graphOptions u (js_or_str newToken []) method body,
              graphApi w (Suc (length (graphCalls w))) (graphOptions u (js_or_str newToken []) method body))] \<and>
       fst (makeGraphRequest u token method body w) =
          (case graphApi w (Suc (length (graphCalls w))) (graphOptions u (js_or_str newToken []) method body) of
             NetworkError \<Rightarrow> None
           | Response r2 \<Rightarrow>
               if ok r2 then (if method = ''DELETE'' then Some (JObj []) else bodyJson r2) else None)) \<and>
    (\<not> (truthy newToken \<and> newToken \<noteq> Some token) \<longrightarrow>
       graphCalls (snd (makeGraphRequest u token method body w)) =
          graphCalls w @ [(graphOptions u token method body, Response r1)] \<and>
       fst (makeGraphRequest u token method body w) = None \<and>
       last (console (snd (makeGraphRequest u token method body w))) =
          LogErrorMakingGraphRequest
            (if includes_str (bodyText r1) ''MailboxNotEnabledForRESTAPI''
             then AccountCapabilityError else HttpError 401 (bodyText r1))) \<and>
    length (graphCalls (snd (makeGraphRequest u token method body w))) \<le> length (graphCalls w) + 2"
proof (cases "truthy newToken \<and> newToken \<noteq> Some token")
  case True
  note r = makeGraphRequest_try_401_retry [OF assms True]
  have "fst (makeGraphRequest u token method body w) =
          (case graphApi w (Suc (length (graphCalls w))) (graphOptions u (js_or_str newToken []) method body) of
             NetworkError \<Rightarrow> None
           | Response r2 \<Rightarrow>
               if ok r2 then (if method = ''DELETE'' then Some (JObj []) else bodyJson r2) else None)"
    unfolding makeGraphRequest_parts(1) r(1)
    by (simp add: handleResponse_fst split: fetch_result.splits option.splits)
  with True show ?thesis
    by (simp add: makeGraphRequest_parts(2) r(2))
next
  case False
  note s = makeGraphRequest_try_401_same [OF assms False]
  have "fst (makeGraphRequest u token method body w) = None"
    unfolding makeGraphRequest_parts(1) s(1) by simp
  moreover have "last (console (snd (makeGraphRequest u token method body w))) =
          LogErrorMakingGraphRequest
            (if includes_str (bodyText r1) ''MailboxNotEnabledForRESTAPI''
             then AccountCapabilityError else HttpError 401 (bodyText r1))"
    unfolding makeGraphRequest_parts(3) [OF s(1)] by simp
  ultimately show ?thesis
    using False by (simp add: makeGraphRequest_parts(2) s(2))
qed

theorem makeGraphRequest_401_single_retry_witness:
  "fst (makeGraphRequest lists_url ''A1'' ''GET'' None
          (idle_world\<lparr>files := [''/cfg/tokens.json'' \<mapsto> Json (Some sample_record)],
                      tokenEndpoint := provider_ok, graphApi := graph_wants_A2\<rparr>)) =
     Some (JObj [(''value'', JArr [])]) \<and>
   map (\<lambda>c. authorization (fst c))
     (graphCalls (snd (makeGraphRequest lists_url ''A1'' ''GET'' None
          (idle_world\<lparr>files := [''/cfg/tokens.json'' \<mapsto> Json (Some sample_record)],
                      tokenEndpoint := provider_ok, graphApi := graph_wants_A2\<rparr>)))) =
     [''Bearer A1'', ''Bearer A2''] \<and>
   fst (makeGraphRequest lists_url ''A1'' ''GET'' None
          (idle_world\<lparr>files := [''/cfg/tokens.json'' \<mapsto> Json (Some (sample_record\<lparr>expiresAt := 1700003600000\<rparr>))],
                      graphApi := graph_unauthorized\<rparr>)) = None \<and>
   map (\<lambda>c. authorization (fst c))
     (graphCalls (snd (makeGraphRequest lists_url ''A1'' ''GET'' None
          (idle_world\<lparr>files := [''/cfg/tokens.json'' \<mapsto> Json (Some (sample_record\<lparr>expiresAt := 1700003600000\<rparr>))],
                      graphApi := graph_unauthorized\<rparr>)))) =
     [''Bearer A1''] \<and>
   last (console (snd (makeGraphRequest lists_url ''A1'' ''GET'' None
          (idle_world\<lparr>files := [''/cfg/tokens.json'' \<mapsto> Json (Some (sample_record\<lparr>expiresAt := 1700003600000\<rparr>))],
                      graphApi := graph_unauthorized\<rparr>)))) =
     LogErrorMakingGraphRequest (HttpError 401 ''InvalidAuthenticationToken'')"
  using makeGraphRequest_401_single_retry
    [of "idle_world\<lparr>files := [''/cfg/tokens.json'' \<mapsto> Json (Some sample_record)],
                     tokenEndpoint := provider_ok, graphApi := graph_wants_A2\<rparr>"
        lists_url "''A1''" "''GET''" None
        "\<lparr>status = 401, bodyText = ''InvalidAuthenticationToken'', bodyJson = None\<rparr>"
        "Some ''A2''"
        "snd (getAccessToken (log LogGot401 (snd (fetchGraph (graphOptions lists_url ''A1'' ''GET'' None)
            (log (LogRequestOptions ''GET'') (log (LogMakingRequest lists_url)
              (idle_world\<lparr>files := [''/cfg/tokens.json'' \<mapsto> Json (Some sample_record)],
                     tokenEndpoint := provider_ok, graphApi := graph_wants_A2\<rparr>)))))))"]
    makeGraphRequest_401_single_retry
    [of "idle_world\<lparr>files := [''/cfg/tokens.json'' \<mapsto> Json (Some (sample_record\<lparr>expiresAt := 1700003600000\<rparr>))],
                      graphApi := graph_unauthorized\<rparr>"
        lists_url "''A1''" "''GET''" None
        "\<lparr>status = 401, bodyText = ''InvalidAuthenticationToken'', bodyJson = None\<rparr>"
        "Some ''A1''"
        "snd (getAccessToken (log LogGot401 (snd (fetchGraph (graphOptions lists_url ''A1'' ''GET'' None)
            (log (LogRequestOptions ''GET'') (log (LogMakingRequest lists_url)
              (idle_world\<lparr>files := [''/cfg/tokens.json'' \<mapsto> Json (Some (sample_record\<lparr>expiresAt := 1700003600000\<rparr>))],
                      graphApi := graph_unauthorized\<rparr>)))))))"]
  by (simp add: eval_defs)

text \<open>
  C2 as stated fails in two places. A 401 whose body contains the mailbox marker, met
  with an unchanged token, is not thrown as the generic HTTP error but as the
  account-capability error; one call was made. And a \<^verbatim>\<open>DELETE\<close> that succeeds on the retry
  returns the empty object, not the body of the retried response.
\<close>

theorem makeGraphRequest_401_mailbox_not_generic:
  "fst (makeGraphRequest_try lists_url ''A1'' ''GET'' None
          (idle_world\<lparr>files := [''/cfg/tokens.json'' \<mapsto> Json (Some (sample_record\<lparr>expiresAt := 1700003600000\<rparr>))],
                      graphApi := graph_unauthorized_mailbox\<rparr>)) = Inl AccountCapabilityError \<and>
   fst (makeGraphRequest_try lists_url ''A1'' ''GET'' None
          (idle_world\<lparr>files := [''/cfg/tokens.json'' \<mapsto> Json (Some (sample_record\<lparr>expiresAt := 1700003600000\<rparr>))],
                      graphApi := graph_unauthorized_mailbox\<rparr>)) \<noteq>
     Inl (HttpError 401 ''code: MailboxNotEnabledForRESTAPI'') \<and>
   graphCalls (snd (makeGraphRequest lists_url ''A1'' ''GET'' None
          (idle_world\<lparr>files := [''/cfg/tokens.json'' \<mapsto> Json (Some (sample_record\<lparr>expiresAt := 1700003600000\<rparr>))],
                      graphApi := graph_unauthorized_mailbox\<rparr>))) =
     [(graphOptions lists_url ''A1'' ''GET'' None,
       Response \<lparr>status = 401, bodyText = ''code: MailboxNotEnabledForRESTAPI'', bodyJson = None\<rparr>)] \<and>
   last (console (snd (makeGraphRequest lists_url ''A1'' ''GET'' None
          (idle_world\<lparr>files := [''/cfg/tokens.json'' \<mapsto> Json (Some (sample_record\<lparr>expiresAt := 1700003600000\<rparr>))],
                      graphApi := graph_unauthorized_mailbox\<rparr>)))) =
     LogErrorMakingGraphRequest AccountCapabilityError \<and>
   snd (last (graphCalls (snd (makeGraphRequest lists_url ''A1'' ''DELETE'' None
          (idle_world\<lparr>files := [''/cfg/tokens.json'' \<mapsto> Json (Some sample_record)],
                      tokenEndpoint := provider_ok, graphApi := graph_wants_A2\<rparr>))))) =
     Response \<lparr>status = 200, bodyText = ''value'', bodyJson = Some (JObj [(''value'', JArr [])])\<rparr> \<and>
   fst (makeGraphRequest lists_url ''A1'' ''DELETE'' None
          (idle_world\<lparr>files := [''/cfg/tokens.json'' \<mapsto> Json (Some sample_record)],
                      tokenEndpoint := provider_ok, graphApi := graph_wants_A2\<rparr>)) = Some (JObj [])"
  by (simp add: eval_defs)

text \<open>
  C7, as the code has it. When the last response of a request is not a success and its
  body contains \<^verbatim>\<open>MailboxNotEnabledForRESTAPI\<close>, the error thrown inside
  \<^verbatim>\<open>makeGraphRequest\<close> is the account-capability error, not the generic HTTP error; the
  status and body are logged, then the explanation for personal accounts, and then the
  function's own \<^verbatim>\<open>catch\<close> logs that error. What the caller gets is \<^verbatim>\<open>null\<close>.
\<close>

theorem mailbox_error_logged_then_null:
  assumes "snd (last (graphCalls (snd (makeGraphRequest u token method body w)))) = Response r"
    and "\<not> ok r"
    and "includes_str (bodyText r) ''MailboxNotEnabledForRESTAPI''"
  shows "fst (makeGraphRequest_try u token method body w) = Inl AccountCapabilityError \<and>
         fst (makeGraphRequest u token method body w) = None \<and>
         (\<exists>pre. console (snd (makeGraphRequest u token method body w)) =
                  pre @ [LogHttpError (status r) (bodyText r), LogMailboxBanner,
                         LogErrorMakingGraphRequest AccountCapabilityError])"
proof -
  have gc: "graphCalls (snd (makeGraphRequest u token method body w)) =
            graphCalls (snd (makeGraphRequest_try u token method body w))"
    by (rule makeGraphRequest_parts(2))
  from makeGraphRequest_try_final [of u token "method" "body" w]
  show ?thesis
  proof (elim disjE exE conjE)
    fix w1
    assume "makeGraphRequest_try u token method body w = (Inl GraphFetchThrew, w1)"
      and "snd (last (graphCalls w1)) = NetworkError"
    with assms(1) gc show ?thesis by simp
  next
    fix r' w1
    assume m: "makeGraphRequest_try u token method body w = handleResponse method r' w1"
      and l: "snd (last (graphCalls w1)) = Response r'"
    from assms(1) gc m l have "r' = r"
      by (simp add: handleResponse_graphCalls)
    with m assms(2,3) have "makeGraphRequest_try u token method body w =
       (Inl AccountCapabilityError,
        w1\<lparr>console := console w1 @ [LogHttpError (status r) (bodyText r), LogMailboxBanner]\<rparr>)"
      by (simp add: handleResponse_mailbox)
    then show ?thesis
      by (simp add: makeGraphRequest_def log_def)
  qed
qed

theorem mailbox_error_logged_then_null_witness:
  "snd (last (graphCalls (snd (makeGraphRequest lists_url ''A1'' ''GET'' None
          (idle_world\<lparr>graphApi := graph_mailbox\<rparr>))))) =
     Response \<lparr>status = 403, bodyText = ''code: MailboxNotEnabledForRESTAPI'', bodyJson = None\<rparr> \<and>
   includes_str ''code: MailboxNotEnabledForRESTAPI'' ''MailboxNotEnabledForRESTAPI'' \<and>
   fst (makeGraphRequest_try lists_url ''A1'' ''GET'' None (idle_world\<lparr>graphApi := graph_mailbox\<rparr>)) =
     Inl AccountCapabilityError \<and>
   makeGraphRequest lists_url ''A1'' ''GET'' None (idle_world\<lparr>graphApi := graph_mailbox\<rparr>) =
     (None,
      idle_world\<lparr>graphApi := graph_mailbox,
                  graphCalls := [(graphOptions lists_url ''A1'' ''GET'' None,
                                  graph_mailbox 0 (graphOptions lists_url ''A1'' ''GET'' None))],
                  console := [LogMakingRequest lists_url, LogRequestOptions ''GET'',
                              LogHttpError 403 ''code: MailboxNotEnabledForRESTAPI'', LogMailboxBanner,
                              LogErrorMakingGraphRequest AccountCapabilityError]\<rparr>)"
  using mailbox_error_logged_then_null
    [of lists_url "''A1''" "''GET''" None "idle_world\<lparr>graphApi := graph_mailbox\<rparr>"
        "\<lparr>status = 403, bodyText = ''code: MailboxNotEnabledForRESTAPI'', bodyJson = None\<rparr>"]
  by (simp add: eval_defs)

text \<open>
  C7 as stated fails: the error does not reach the caller. A 403 with the mailbox marker
  and a plain 500 throw different errors inside \<^verbatim>\<open>makeGraphRequest\<close>, and the caller
  gets the same \<^verbatim>\<open>null\<close> for both.
\<close>

theorem mailbox_error_reaches_caller_as_null:
  "fst (makeGraphRequest_try lists_url ''A1'' ''GET'' None (idle_world\<lparr>graphApi := graph_mailbox\<rparr>)) =
     Inl AccountCapabilityError \<and>
   fst (makeGraphRequest_try lists_url ''A1'' ''GET'' None (idle_world\<lparr>graphApi := graph_server_error\<rparr>)) =
     Inl (HttpError 500 ''InternalServerError'') \<and>
   fst (makeGraphRequest lists_url ''A1'' ''GET'' None (idle_world\<lparr>graphApi := graph_mailbox\<rparr>)) = None \<and>
   fst (makeGraphRequest lists_url ''A1'' ''GET'' None (idle_world\<lparr>graphApi := graph_server_error\<rparr>)) = None"
  by (simp add: eval_defs)

end
